theory Spec2Isabelle
  imports Complex_Main
begin

section \<open>JavaScript numbers\<close>

text \<open>
  A JavaScript number is a finite value, one of the two infinities, or NaN. The finite
  values are modelled as reals: the rounding of IEEE doubles is not modelled, the
  non-finite values and the way they spread through arithmetic and comparisons are.
\<close>

datatype jsnum = Fin real | PosInf | NegInf | NaN

fun isNaN :: "jsnum \<Rightarrow> bool" where
  "isNaN NaN = True"
| "isNaN _ = False"

fun isFinite :: "jsnum \<Rightarrow> bool" where
  "isFinite (Fin _) = True"
| "isFinite _ = False"

text \<open>\<open>a < b\<close> on numbers: false as soon as one side is NaN.\<close>

fun js_lt :: "jsnum \<Rightarrow> jsnum \<Rightarrow> bool" where
  "js_lt NaN _ = False"
| "js_lt _ NaN = False"
| "js_lt (Fin a) (Fin b) = (a < b)"
| "js_lt (Fin _) PosInf = True"
| "js_lt (Fin _) NegInf = False"
| "js_lt PosInf _ = False"
| "js_lt NegInf NegInf = False"
| "js_lt NegInf _ = True"

text \<open>\<open>Math.max\<close> and \<open>Math.min\<close> of two numbers: NaN when an argument is NaN.\<close>

definition Math_max :: "jsnum \<Rightarrow> jsnum \<Rightarrow> jsnum" where
  "Math_max a b = (if isNaN a \<or> isNaN b then NaN else if js_lt a b then b else a)"

definition Math_min :: "jsnum \<Rightarrow> jsnum \<Rightarrow> jsnum" where
  "Math_min a b = (if isNaN a \<or> isNaN b then NaN else if js_lt b a then b else a)"

text \<open>\<open>a * b\<close>: an infinity times zero is NaN, otherwise the sign rule.\<close>

fun js_sign :: "jsnum \<Rightarrow> int" where
  "js_sign (Fin a) = (if a < 0 then - 1 else if a = 0 then 0 else 1)"
| "js_sign PosInf = 1"
| "js_sign NegInf = - 1"
| "js_sign NaN = 0"

definition js_mul :: "jsnum \<Rightarrow> jsnum \<Rightarrow> jsnum" where
  "js_mul a b =
     (case (a, b) of
        (Fin p, Fin q) \<Rightarrow> Fin (p * q)
      | _ \<Rightarrow>
          if isNaN a \<or> isNaN b then NaN
          else if js_sign a * js_sign b = 0 then NaN
          else if js_sign a * js_sign b > 0 then PosInf
          else NegInf)"

section \<open>Numeric sanitizer\<close>

text \<open>
  \<open>sanitizeNumber\<close> declares its first parameter \<open>any\<close> and reads it only through
  \<open>parseFloat\<close>. Its callers pass a \<open>number\<close> field or a missing one (\<open>undefined\<close>),
  which is the value type here: \<open>None\<close> is \<open>undefined\<close>. \<open>parseFloat\<close> turns its
  argument into a string and reads a number back, which gives a number again and NaN for
  \<open>undefined\<close>; every number \<open>parseFloat\<close> can return is reached this way.
\<close>

fun parseFloat :: "jsnum option \<Rightarrow> jsnum" where
  "parseFloat None = NaN"
| "parseFloat (Some n) = n"

definition sanitizeNumber :: "jsnum option \<Rightarrow> jsnum \<Rightarrow> jsnum \<Rightarrow> jsnum option \<Rightarrow> jsnum" where
  "sanitizeNumber val mn mx fallback =
     (let n = parseFloat val in
      if isNaN n \<or> \<not> isFinite n then (case fallback of Some f \<Rightarrow> f | None \<Rightarrow> mn)
      else Math_min (Math_max n mn) mx)"

section \<open>Physics parameters and the gravity update\<close>

record Point =
  px :: jsnum
  py :: jsnum

record PhysicsState =
  gravity :: Point
  timeScale :: jsnum
  enableCollisionEffects :: bool

definition GRAVITY_SCALE_FACTOR :: jsnum where
  "GRAVITY_SCALE_FACTOR = Fin (1 / 9.81)"

definition normalizedX :: "PhysicsState \<Rightarrow> jsnum" where
  "normalizedX physicsState = js_mul (px (gravity physicsState)) GRAVITY_SCALE_FACTOR"

definition normalizedY :: "PhysicsState \<Rightarrow> jsnum" where
  "normalizedY physicsState = js_mul (py (gravity physicsState)) GRAVITY_SCALE_FACTOR"

text \<open>The gravity vector the physics-update effect writes into the engine.\<close>

definition engineGravity :: "PhysicsState \<Rightarrow> Point" where
  "engineGravity physicsState =
     \<lparr> px = (if isFinite (normalizedX physicsState)
              then Math_min (Math_max (normalizedX physicsState) (Fin (- 10))) (Fin 10)
              else Fin 0),
       py = (if isFinite (normalizedY physicsState)
              then Math_min (Math_max (normalizedY physicsState) (Fin (- 10))) (Fin 10)
              else Fin 1) \<rparr>"

section \<open>Viewport: wheel zoom\<close>

text \<open>
  The renderer's bounds are a box in world coordinates. Coordinates of the box and the
  wheel delta are finite here (reals): the box starts finite and zooming keeps it so.
\<close>

record Vector =
  vx :: real
  vy :: real

record Bounds =
  bmin :: Vector
  bmax :: Vector

record Canvas =
  canvas_width :: real
  canvas_height :: real

text \<open>
  \<open>Render.lookAt\<close> belongs to the rendering library, not to this repository. Called
  with one box and nothing else, as this program calls it, it takes the box's width and
  height, compares their ratio with the ratio of the canvas, stretches the height when
  the box is the wider of the two and the width otherwise, keeps the centre of the box,
  and makes the result the renderer's bounds:

  \<^verbatim>\<open>outerRatio = canvas.width / canvas.height; innerRatio = width / height;\<close>
  \<^verbatim>\<open>if (innerRatio > outerRatio) scaleY = innerRatio / outerRatio;\<close>
  \<^verbatim>\<open>else scaleX = outerRatio / innerRatio;\<close>
  \<^verbatim>\<open>bounds.min.x = min.x; bounds.max.x = min.x + width * scaleX;\<close>
  \<^verbatim>\<open>bounds.min.x += width * 0.5 - (width * scaleX) * 0.5;\<close> (and \<open>max.x\<close>, and the same for y)
\<close>

definition Render_lookAt_fit :: "Canvas \<Rightarrow> Bounds \<Rightarrow> Bounds" where
  "Render_lookAt_fit canvas box =
     (let width = vx (bmax box) - vx (bmin box);
          height = vy (bmax box) - vy (bmin box);
          outerRatio = canvas_width canvas / canvas_height canvas;
          innerRatio = width / height;
          scaleX = (if innerRatio > outerRatio then 1 else outerRatio / innerRatio);
          scaleY = (if innerRatio > outerRatio then innerRatio / outerRatio else 1);
          shiftX = width * 0.5 - (width * scaleX) * 0.5;
          shiftY = height * 0.5 - (height * scaleY) * 0.5
      in \<lparr> bmin = \<lparr> vx = vx (bmin box) + shiftX, vy = vy (bmin box) + shiftY \<rparr>,
           bmax = \<lparr> vx = vx (bmin box) + width * scaleX + shiftX,
                    vy = vy (bmin box) + height * scaleY + shiftY \<rparr> \<rparr>)"

text \<open>
  \<open>handleWheel\<close> passes a box that has the canvas's ratio
  (\<open>newDy = newDx * aspectRatio\<close>), so there both scales are 1 and the bounds become
  the box that was passed (\<open>Render_lookAt_fit_same_ratio\<close> below).
\<close>

definition Render_lookAt :: "Bounds \<Rightarrow> Bounds" where
  "Render_lookAt box = box"

definition PADDING :: real where
  "PADDING = 100"

text \<open>
  The initial view: the setup passes the 800 by 600 world with the padding on each side
  to \<open>Render.lookAt\<close>, on the canvas that fills the container.
\<close>

definition initialView :: "Canvas \<Rightarrow> Bounds" where
  "initialView canvas =
     Render_lookAt_fit canvas
       \<lparr> bmin = \<lparr>vx = - PADDING, vy = - PADDING\<rparr>,
         bmax = \<lparr>vx = 800 + PADDING, vy = 600 + PADDING\<rparr> \<rparr>"

text \<open>
  The wheel handler, from the wheel event's \<open>deltaY\<close> and the current bounds to the new
  bounds. The canvas is never of width zero: the engine is not set up for an empty
  container.
\<close>

definition handleWheel :: "Canvas \<Rightarrow> real \<Rightarrow> Bounds \<Rightarrow> Bounds" where
  "handleWheel canvas deltaY bounds =
     (let zoomFactor = (if deltaY > 0 then 1.1 else 0.9 :: real);
          dx = vx (bmax bounds) - vx (bmin bounds)
      in if dx > 4000 \<and> zoomFactor > 1 then bounds
         else if dx < 100 \<and> zoomFactor < 1 then bounds
         else
          (let center = \<lparr> vx = (vx (bmin bounds) + vx (bmax bounds)) / 2,
                          vy = (vy (bmin bounds) + vy (bmax bounds)) / 2 \<rparr>;
               newDx = dx * zoomFactor;
               aspectRatio = canvas_height canvas / canvas_width canvas;
               newDy = newDx * aspectRatio
           in Render_lookAt
                \<lparr> bmin = \<lparr>vx = vx center - newDx / 2, vy = vy center - newDy / 2\<rparr>,
                  bmax = \<lparr>vx = vx center + newDx / 2, vy = vy center + newDy / 2\<rparr> \<rparr>))"

text \<open>The width of a box, and a run of wheel events applied in order.\<close>

definition boundsWidth :: "Bounds \<Rightarrow> real" where
  "boundsWidth bounds = vx (bmax bounds) - vx (bmin bounds)"

definition wheelEvents :: "Canvas \<Rightarrow> real list \<Rightarrow> Bounds \<Rightarrow> Bounds" where
  "wheelEvents canvas deltas bounds = foldl (\<lambda>b d. handleWheel canvas d b) bounds deltas"

section \<open>Contact effect\<close>

text \<open>
  The renderer carries one optional \<open>flash\<close>: a point and a frame count. \<open>None\<close> is
  the renderer without a flash. A collision pair carries its first support point, which
  may be missing.
\<close>

record Flash =
  flash_x :: jsnum
  flash_y :: jsnum
  flash_frame :: nat

definition collisionStart :: "PhysicsState \<Rightarrow> Point option list \<Rightarrow> Flash option \<Rightarrow> Flash option" where
  "collisionStart physicsState pairs flash =
     (if \<not> enableCollisionEffects physicsState then flash
      else foldl (\<lambda>f collisionPoint.
                   case collisionPoint of
                     None \<Rightarrow> f
                   | Some p \<Rightarrow> Some \<lparr>flash_x = px p, flash_y = py p, flash_frame = 0\<rparr>)
             flash pairs)"

text \<open>
  The spark step of the render callback: what it draws (the centre and the radius of the
  arc, if any) and the flash it leaves.
\<close>

record Spark =
  spark_x :: jsnum
  spark_y :: jsnum
  spark_radius :: int

definition afterRender :: "Flash option \<Rightarrow> Spark option \<times> Flash option" where
  "afterRender flash =
     (case flash of
        None \<Rightarrow> (None, None)
      | Some f \<Rightarrow>
          if flash_frame f < 10 \<and> isFinite (flash_x f) \<and> isFinite (flash_y f)
          then (Some \<lparr>spark_x = flash_x f, spark_y = flash_y f,
                      spark_radius = 25 - int (flash_frame f)\<rparr>,
                Some (f\<lparr>flash_frame := flash_frame f + 1\<rparr>))
          else (None, Some f))"

section \<open>Scenes and voice commands\<close>

text \<open>
  The records of \<open>types.ts\<close>. A field declared optional is an \<open>option\<close>, \<open>None\<close>
  for a missing property. Field names carry the record's name, since Isabelle's field
  names are global. A body's \<open>type\<close> is declared as one of two string literals; the
  parsed response can hold any string there, and the code compares it with each literal.
\<close>

record BodyDef =
  body_id :: string
  body_type :: string
  body_x :: jsnum
  body_y :: jsnum
  body_width :: "jsnum option"
  body_height :: "jsnum option"
  body_radius :: "jsnum option"
  body_angle :: "jsnum option"
  body_isStatic :: bool
  body_color :: "string option"
  body_friction :: "jsnum option"

text \<open>
  A constraint's \<open>bodyAId\<close> and \<open>bodyBId\<close> are declared \<open>string\<close>, and they are
  strings in a parsed response. The remap step of \<open>interpretVoiceCommand\<close> assigns them
  what it reads from \<open>idMap\<close>, a plain object, and a plain object also answers for the
  property names of \<open>Object.prototype\<close>, with a function or an object. So what a
  constraint holds after the remap, and in the scene, is a \<open>bodyRef\<close>: a string, or
  the value that \<open>Object.prototype\<close> has under a property name. The type of the
  reference is the parameter of the record.
\<close>

datatype bodyRef = IdString string | InheritedObject string

record 'r ConstraintDef =
  bodyAId :: 'r
  bodyBId :: "'r option"
  pointB :: "Point option"
  stiffness :: "jsnum option"
  length_c :: "jsnum option"

record SceneConfig =
  bodies :: "BodyDef list"
  constraints :: "bodyRef ConstraintDef list"

text \<open>
  An entry of \<open>updatedBodies\<close>. The field is declared \<open>BodyDef[]\<close>, but the response
  schema requires only \<open>id\<close> of such an entry and the code treats every other property
  as one that may be missing: the entry is a fragment of a body.
\<close>

record BodyUpdate =
  upd_id :: string
  upd_type :: "string option"
  upd_x :: "jsnum option"
  upd_y :: "jsnum option"
  upd_width :: "jsnum option"
  upd_height :: "jsnum option"
  upd_radius :: "jsnum option"
  upd_angle :: "jsnum option"
  upd_isStatic :: "bool option"
  upd_color :: "string option"
  upd_friction :: "jsnum option"

text \<open>
  The command, without its \<open>physicsUpdates\<close>, which go to the physics state and never
  to the scene.
\<close>

record 'r VoiceCommandResponse =
  summary :: "string option"
  newBodies :: "BodyDef list option"
  updatedBodies :: "BodyUpdate list option"
  newConstraints :: "'r ConstraintDef list option"
  removeBodyIds :: "string list option"

subsection \<open>Sanitizing and remapping a parsed command\<close>

text \<open>
  A string in a condition counts as true when it is not empty; a function or an object
  always does.
\<close>

definition truthy :: "string \<Rightarrow> bool" where
  "truthy s = (s \<noteq> [])"

fun truthyRef :: "bodyRef \<Rightarrow> bool" where
  "truthyRef (IdString s) = truthy s"
| "truthyRef (InheritedObject _) = True"

text \<open>
  Whether a reference is one of a set of ids (\<open>ids.includes(ref)\<close>, a key of a map of
  ids): a function or an object is equal to no string.
\<close>

fun namesBody :: "string set \<Rightarrow> bodyRef \<Rightarrow> bool" where
  "namesBody ids (IdString s) = (s \<in> ids)"
| "namesBody ids (InheritedObject _) = False"

text \<open>
  \<open>timestamp\<close> is the last four characters of the clock's milliseconds in decimal; it
  is a parameter here. The new id of a body is its id, an underscore and the timestamp.
\<close>

definition newId :: "string \<Rightarrow> string \<Rightarrow> string" where
  "newId timestamp oldId = oldId @ ''_'' @ timestamp"

definition sanitizeNewBody :: "string \<Rightarrow> BodyDef \<Rightarrow> BodyDef" where
  "sanitizeNewBody timestamp b =
     b \<lparr> body_id := newId timestamp (body_id b),
         body_friction := Some (sanitizeNumber (body_friction b) (Fin 0) (Fin 1) (Some (Fin 0.1))),
         body_x := sanitizeNumber (Some (body_x b)) (Fin (- 2000)) (Fin 2000) (Some (Fin 400)),
         body_y := sanitizeNumber (Some (body_y b)) (Fin (- 2000)) (Fin 2000) (Some (Fin 300)),
         body_radius :=
           (if body_type b = ''circle''
            then Some (sanitizeNumber (body_radius b) (Fin 1) (Fin 400) (Some (Fin 20)))
            else body_radius b),
         body_width :=
           (if body_type b = ''rectangle''
            then Some (sanitizeNumber (body_width b) (Fin 1) (Fin 2000) (Some (Fin 100)))
            else body_width b),
         body_height :=
           (if body_type b = ''rectangle''
            then Some (sanitizeNumber (body_height b) (Fin 1) (Fin 2000) (Some (Fin 20)))
            else body_height b) \<rparr>"

text \<open>
  \<open>idMap\<close> is the plain object \<open>{}\<close>: its own properties, which the loop over the new
  bodies sets, on top of the properties of \<open>Object.prototype\<close>. The own properties are
  a map from keys to strings. The names below are the properties of \<open>Object.prototype\<close>
  (the language's and its Annex B's); each holds a function, \<open>__proto__\<close> an object.

  \<open>idMap[key] = v\<close> with a string \<open>v\<close> sets an own property, except under the key
  \<open>__proto__\<close>, where the assignment goes to the inherited setter, which ignores a
  string. \<open>idMap[key]\<close> is the own property when there is one, the inherited value
  under a name of \<open>Object.prototype\<close>, and \<open>undefined\<close> (\<open>None\<close>) otherwise.
\<close>

definition objectPrototypeNames :: "string list" where
  "objectPrototypeNames =
     [''constructor'', ''__defineGetter__'', ''__defineSetter__'', ''hasOwnProperty'',
      ''__lookupGetter__'', ''__lookupSetter__'', ''isPrototypeOf'', ''propertyIsEnumerable'',
      ''toString'', ''valueOf'', ''__proto__'', ''toLocaleString'']"

definition idMapSet :: "(string \<rightharpoonup> string) \<Rightarrow> string \<Rightarrow> string \<Rightarrow> (string \<rightharpoonup> string)" where
  "idMapSet idMap key v = (if key = ''__proto__'' then idMap else idMap (key \<mapsto> v))"

definition idMapGet :: "(string \<rightharpoonup> string) \<Rightarrow> string \<Rightarrow> bodyRef option" where
  "idMapGet idMap key =
     (case idMap key of
        Some v \<Rightarrow> Some (IdString v)
      | None \<Rightarrow>
          if key \<in> set objectPrototypeNames then Some (InheritedObject key) else None)"

text \<open>
  The own properties of \<open>idMap\<close> after the loop over the new bodies: each body's old id
  is set to its new id, in order.
\<close>

definition buildIdMap :: "string \<Rightarrow> BodyDef list \<Rightarrow> (string \<rightharpoonup> string)" where
  "buildIdMap timestamp bs =
     foldl (\<lambda>idMap b. idMapSet idMap (body_id b) (newId timestamp (body_id b))) Map.empty bs"

definition sanitizeUpdatedBody :: "BodyUpdate \<Rightarrow> BodyUpdate" where
  "sanitizeUpdatedBody b =
     b \<lparr> upd_friction :=
           (case upd_friction b of None \<Rightarrow> None
            | Some v \<Rightarrow> Some (sanitizeNumber (Some v) (Fin 0) (Fin 1) (Some (Fin 0.1)))),
         upd_x :=
           (case upd_x b of None \<Rightarrow> None
            | Some v \<Rightarrow> Some (sanitizeNumber (Some v) (Fin (- 2000)) (Fin 2000) (Some v))),
         upd_y :=
           (case upd_y b of None \<Rightarrow> None
            | Some v \<Rightarrow> Some (sanitizeNumber (Some v) (Fin (- 2000)) (Fin 2000) (Some v))),
         upd_radius :=
           (case upd_radius b of None \<Rightarrow> None
            | Some v \<Rightarrow> Some (sanitizeNumber (Some v) (Fin 1) (Fin 400) (Some v))),
         upd_width :=
           (case upd_width b of None \<Rightarrow> None
            | Some v \<Rightarrow> Some (sanitizeNumber (Some v) (Fin 1) (Fin 2000) (Some v))),
         upd_height :=
           (case upd_height b of None \<Rightarrow> None
            | Some v \<Rightarrow> Some (sanitizeNumber (Some v) (Fin 1) (Fin 2000) (Some v))) \<rparr>"

text \<open>
  The remap and the sanitizing of one constraint of the parsed response. The constraint
  comes with strings and leaves with what the remap stored.
\<close>

definition sanitizeConstraint ::
    "(string \<rightharpoonup> string) \<Rightarrow> string ConstraintDef \<Rightarrow> bodyRef ConstraintDef" where
  "sanitizeConstraint idMap c =
     \<lparr> bodyAId =
         (case idMapGet idMap (bodyAId c) of
            Some mapped \<Rightarrow> if truthyRef mapped then mapped else IdString (bodyAId c)
          | None \<Rightarrow> IdString (bodyAId c)),
       bodyBId =
         (case bodyBId c of
            None \<Rightarrow> None
          | Some b \<Rightarrow>
              if truthy b
              then (case idMapGet idMap b of
                      Some mapped \<Rightarrow> if truthyRef mapped then Some mapped else Some (IdString b)
                    | None \<Rightarrow> Some (IdString b))
              else Some (IdString b)),
       pointB = pointB c,
       stiffness =
         (case stiffness c of None \<Rightarrow> None
          | Some v \<Rightarrow> Some (sanitizeNumber (Some v) (Fin 0.001) (Fin 1) (Some (Fin 0.1)))),
       length_c =
         (case length_c c of None \<Rightarrow> None
          | Some v \<Rightarrow> Some (sanitizeNumber (Some v) (Fin 1) (Fin 1000) None)) \<rparr>"

text \<open>
  What \<open>interpretVoiceCommand\<close> does to the parsed response before it returns it: new
  bodies first (which fills \<open>idMap\<close>), then the updated bodies, then the constraints.
  Without new bodies \<open>idMap\<close> has no own property.
\<close>

definition sanitizeCommand ::
    "string \<Rightarrow> string VoiceCommandResponse \<Rightarrow> bodyRef VoiceCommandResponse" where
  "sanitizeCommand timestamp result =
     (let idMap = (case newBodies result of
                     None \<Rightarrow> Map.empty
                   | Some bs \<Rightarrow> buildIdMap timestamp bs)
      in \<lparr> summary = summary result,
           newBodies = map_option (map (sanitizeNewBody timestamp)) (newBodies result),
           updatedBodies = map_option (map sanitizeUpdatedBody) (updatedBodies result),
           newConstraints = map_option (map (sanitizeConstraint idMap)) (newConstraints result),
           removeBodyIds = removeBodyIds result \<rparr>)"

subsection \<open>Applying a command to the scene\<close>

text \<open>\<open>findIndex\<close>: the first index where the predicate holds, \<open>None\<close> for -1.\<close>

fun findIndex :: "('a \<Rightarrow> bool) \<Rightarrow> 'a list \<Rightarrow> nat option" where
  "findIndex P [] = None"
| "findIndex P (x # xs) = (if P x then Some 0 else map_option Suc (findIndex P xs))"

text \<open>
  The object spread \<open>{ ...body, ...updatedBody }\<close>: every property the fragment has
  replaces the body's, every other property is the body's.
\<close>

definition spreadUpdate :: "BodyDef \<Rightarrow> BodyUpdate \<Rightarrow> BodyDef" where
  "spreadUpdate b u =
     \<lparr> body_id = upd_id u,
       body_type = (case upd_type u of Some v \<Rightarrow> v | None \<Rightarrow> body_type b),
       body_x = (case upd_x u of Some v \<Rightarrow> v | None \<Rightarrow> body_x b),
       body_y = (case upd_y u of Some v \<Rightarrow> v | None \<Rightarrow> body_y b),
       body_width = (case upd_width u of Some v \<Rightarrow> Some v | None \<Rightarrow> body_width b),
       body_height = (case upd_height u of Some v \<Rightarrow> Some v | None \<Rightarrow> body_height b),
       body_radius = (case upd_radius u of Some v \<Rightarrow> Some v | None \<Rightarrow> body_radius b),
       body_angle = (case upd_angle u of Some v \<Rightarrow> Some v | None \<Rightarrow> body_angle b),
       body_isStatic = (case upd_isStatic u of Some v \<Rightarrow> v | None \<Rightarrow> body_isStatic b),
       body_color = (case upd_color u of Some v \<Rightarrow> Some v | None \<Rightarrow> body_color b),
       body_friction = (case upd_friction u of Some v \<Rightarrow> Some v | None \<Rightarrow> body_friction b) \<rparr>"

text \<open>One step of the loop over \<open>updatedBodies\<close>, and the loop.\<close>

definition applyUpdatedBody :: "BodyDef list \<Rightarrow> BodyUpdate \<Rightarrow> BodyDef list" where
  "applyUpdatedBody updatedBodiesList updatedBody =
     (case findIndex (\<lambda>b. body_id b = upd_id updatedBody) updatedBodiesList of
        Some index \<Rightarrow>
          updatedBodiesList [index := spreadUpdate (updatedBodiesList ! index) updatedBody]
      | None \<Rightarrow> updatedBodiesList)"

definition processUpdates :: "BodyDef list \<Rightarrow> BodyUpdate list option \<Rightarrow> BodyDef list" where
  "processUpdates safeBodies ups =
     (case ups of None \<Rightarrow> safeBodies | Some us \<Rightarrow> foldl applyUpdatedBody safeBodies us)"

text \<open>\<open>xs || []\<close> for an optional list, and whether an optional list has an element.\<close>

definition orEmpty :: "'a list option \<Rightarrow> 'a list" where
  "orEmpty xs = (case xs of None \<Rightarrow> [] | Some ys \<Rightarrow> ys)"

definition nonEmpty :: "'a list option \<Rightarrow> bool" where
  "nonEmpty xs = (case xs of None \<Rightarrow> False | Some ys \<Rightarrow> ys \<noteq> [])"

text \<open>
  The first state update of the handler (additions and updates). The scene state is
  \<open>None\<close> while there is no scene; \<open>prev || { bodies: [], constraints: [] }\<close> is
  \<open>sceneOrEmpty prev\<close>.
\<close>

definition sceneOrEmpty :: "SceneConfig option \<Rightarrow> SceneConfig" where
  "sceneOrEmpty prev = (case prev of Some s \<Rightarrow> s | None \<Rightarrow> \<lparr>bodies = [], constraints = []\<rparr>)"

definition handleAdditionsAndUpdates ::
    "bodyRef VoiceCommandResponse \<Rightarrow> SceneConfig option \<Rightarrow> SceneConfig option" where
  "handleAdditionsAndUpdates response prev =
     (if nonEmpty (newBodies response) \<or> nonEmpty (newConstraints response)
          \<or> nonEmpty (updatedBodies response)
      then
        (let currentConfig = sceneOrEmpty prev;
             safeBodies = bodies currentConfig;
             safeConstraints = constraints currentConfig;
             updatedBodiesList = processUpdates safeBodies (updatedBodies response)
         in Some (currentConfig
              \<lparr> bodies := updatedBodiesList @ orEmpty (newBodies response),
                constraints := safeConstraints @ orEmpty (newConstraints response) \<rparr>))
      else prev)"

text \<open>The second state update of the handler (removals).\<close>

definition handleRemovals ::
    "bodyRef VoiceCommandResponse \<Rightarrow> SceneConfig option \<Rightarrow> SceneConfig option" where
  "handleRemovals response prev =
     (if nonEmpty (removeBodyIds response)
      then
        (case prev of
           None \<Rightarrow> None
         | Some s \<Rightarrow>
             (let idsToRemove = orEmpty (removeBodyIds response)
              in Some (s
                   \<lparr> bodies := filter (\<lambda>b. body_id b \<notin> set idsToRemove) (bodies s),
                     constraints :=
                       filter (\<lambda>c. \<not> namesBody (set idsToRemove) (bodyAId c) \<and>
                                    (case bodyBId c of
                                       None \<Rightarrow> True
                                     | Some b \<Rightarrow> \<not> truthyRef b
                                                  \<or> \<not> namesBody (set idsToRemove) b))
                         (constraints s) \<rparr>)))
      else prev)"

text \<open>The scene after the handler has applied a command: the two updates in order.\<close>

definition applyCommand ::
    "bodyRef VoiceCommandResponse \<Rightarrow> SceneConfig option \<Rightarrow> SceneConfig option" where
  "applyCommand response prev = handleRemovals response (handleAdditionsAndUpdates response prev)"

subsection \<open>The scene's invariants\<close>

definition bodyIds :: "SceneConfig \<Rightarrow> string set" where
  "bodyIds s = set (map body_id (bodies s))"

definition uniqueIds :: "SceneConfig \<Rightarrow> bool" where
  "uniqueIds s = distinct (map body_id (bodies s))"

text \<open>
  A constraint's references resolve in a set of ids. A \<open>bodyBId\<close> that is missing or
  empty refers to nothing: the code reads it as no second body everywhere. A reference
  that is no string names no body.
\<close>

definition resolves :: "string set \<Rightarrow> bodyRef ConstraintDef \<Rightarrow> bool" where
  "resolves ids c =
     (namesBody ids (bodyAId c) \<and>
      (case bodyBId c of None \<Rightarrow> True | Some b \<Rightarrow> \<not> truthyRef b \<or> namesBody ids b))"

text \<open>
  A key under which \<open>idMap\<close>, filled for new bodies of the given ids, answers with a
  string or not at all: not \<open>__proto__\<close>, and the id of a new body or no property name
  of \<open>Object.prototype\<close>.
\<close>

definition plainKey :: "string set \<Rightarrow> string \<Rightarrow> bool" where
  "plainKey newIds key =
     (key \<noteq> ''__proto__'' \<and> (key \<in> newIds \<or> key \<notin> set objectPrototypeNames))"

text \<open>A constraint of a parsed response as it stands, its strings as references.\<close>

definition asParsed :: "string ConstraintDef \<Rightarrow> bodyRef ConstraintDef" where
  "asParsed c =
     \<lparr> bodyAId = IdString (bodyAId c), bodyBId = map_option IdString (bodyBId c),
       pointB = pointB c, stiffness = stiffness c, length_c = length_c c \<rparr>"

definition noDangling :: "SceneConfig \<Rightarrow> bool" where
  "noDangling s = list_all (resolves (bodyIds s)) (constraints s)"

definition sceneInvariant :: "SceneConfig option \<Rightarrow> bool" where
  "sceneInvariant st = (case st of None \<Rightarrow> True | Some s \<Rightarrow> uniqueIds s \<and> noDangling s)"

subsection \<open>Building the physics world's constraints from a scene\<close>

text \<open>
  \<open>bodiesMap\<close> after the loop over the scene's bodies: a body with a coordinate that is
  not finite is skipped, a later body replaces an earlier one of the same id. The map's
  value stands for the engine body made from the definition.
\<close>

definition bodiesMap :: "SceneConfig \<Rightarrow> (string \<rightharpoonup> BodyDef)" where
  "bodiesMap sceneConfig =
     foldl (\<lambda>m def.
              if \<not> isFinite (body_x def) \<or> \<not> isFinite (body_y def) then m
              else m (body_id def \<mapsto> def))
       Map.empty (bodies sceneConfig)"

text \<open>
  The engine constraint made for one constraint of the scene, \<open>None\<close> when none is made.
  \<open>x || d\<close> on an optional number takes \<open>d\<close> when the number is missing, zero or NaN.
  \<open>bodiesMap.get(ref)\<close> is \<open>mapGet\<close>: the keys are strings.
\<close>

record EngineConstraint =
  ec_bodyA :: string
  ec_bodyB :: "string option"
  ec_pointB :: "Point option"
  ec_stiffness :: jsnum
  ec_length :: "jsnum option"

definition numberOr :: "jsnum option \<Rightarrow> jsnum \<Rightarrow> jsnum" where
  "numberOr v d =
     (case v of None \<Rightarrow> d | Some n \<Rightarrow> if n = Fin 0 \<or> isNaN n then d else n)"

fun mapGet :: "(string \<rightharpoonup> BodyDef) \<Rightarrow> bodyRef \<Rightarrow> BodyDef option" where
  "mapGet bmap (IdString s) = bmap s"
| "mapGet bmap (InheritedObject _) = None"

definition createConstraint ::
    "(string \<rightharpoonup> BodyDef) \<Rightarrow> bodyRef ConstraintDef \<Rightarrow> EngineConstraint option" where
  "createConstraint bmap cDef =
     (let bodyA = mapGet bmap (bodyAId cDef);
          bodyB = (case bodyBId cDef of
                     None \<Rightarrow> None
                   | Some b \<Rightarrow> if truthyRef b then mapGet bmap b else None)
      in case bodyA of
           None \<Rightarrow> None
         | Some a \<Rightarrow>
             Some \<lparr> ec_bodyA = body_id a,
                    ec_bodyB = map_option body_id bodyB,
                    ec_pointB = (case pointB cDef of
                                   Some p \<Rightarrow> Some p
                                 | None \<Rightarrow> (case bodyB of
                                              Some _ \<Rightarrow> None
                                            | None \<Rightarrow> Some \<lparr>px = Fin 0, py = Fin 0\<rparr>)),
                    ec_stiffness = numberOr (stiffness cDef) (Fin 0.1),
                    ec_length = length_c cDef \<rparr>)"

definition worldConstraints :: "SceneConfig \<Rightarrow> EngineConstraint list" where
  "worldConstraints sceneConfig =
     List.map_filter (createConstraint (bodiesMap sceneConfig)) (constraints sceneConfig)"

section \<open>Reading the model's response\<close>

subsection \<open>String operations\<close>










subsection \<open>The host's JSON reader\<close>

text \<open>
  \<open>JSON.parse\<close> is the host's: the grammar of JSON texts, read here by recursive
  descent. A number is read as a real (no rounding, no overflow). The recursion on nested
  values carries a counter that starts above the length of the text, which is enough for
  every text (\<open>JSON_parse_enough_fuel\<close> below).
\<close>

datatype json =
    JNull
  | JBool bool
  | JNumber real
  | JString string
  | JArray "json list"
  | JObject "(string \<times> json) list"

definition isJsonSpace :: "char \<Rightarrow> bool" where
  "isJsonSpace c = (of_char c \<in> {9, 10, 13, 32 :: nat})"

definition skipSpace :: "string \<Rightarrow> string" where
  "skipSpace s = dropWhile isJsonSpace s"

definition isDigit :: "char \<Rightarrow> bool" where
  "isDigit c = (48 \<le> (of_char c :: nat) \<and> (of_char c :: nat) \<le> 57)"

definition digitsVal :: "string \<Rightarrow> nat" where
  "digitsVal ds = foldl (\<lambda>n c. 10 * n + (of_char c - 48)) 0 ds"

definition hexVal1 :: "char \<Rightarrow> nat option" where
  "hexVal1 c =
     (let n = (of_char c :: nat)
      in if 48 \<le> n \<and> n \<le> 57 then Some (n - 48)
         else if 65 \<le> n \<and> n \<le> 70 then Some (n - 55)
         else if 97 \<le> n \<and> n \<le> 102 then Some (n - 87)
         else None)"

fun hexVal :: "nat \<Rightarrow> string \<Rightarrow> nat option" where
  "hexVal acc [] = Some acc"
| "hexVal acc (c # cs) =
     (case hexVal1 c of None \<Rightarrow> None | Some d \<Rightarrow> hexVal (16 * acc + d) cs)"

definition utf8 :: "nat \<Rightarrow> string" where
  "utf8 n =
     (if n < 128 then [char_of n]
      else if n < 2048 then [char_of (192 + n div 64), char_of (128 + n mod 64)]
      else [char_of (224 + n div 4096), char_of (128 + (n div 64) mod 64),
            char_of (128 + n mod 64)])"

definition escapeChar :: "char \<Rightarrow> char option" where
  "escapeChar e =
     (if e = CHR 0x22 then Some (CHR 0x22)
      else if e = CHR 0x5C then Some (CHR 0x5C)
      else if e = CHR ''/'' then Some (CHR ''/'')
      else if e = CHR ''b'' then Some (CHR 0x08)
      else if e = CHR ''f'' then Some (CHR 0x0C)
      else if e = CHR ''n'' then Some (CHR 0x0A)
      else if e = CHR ''r'' then Some (CHR 0x0D)
      else if e = CHR ''t'' then Some (CHR 0x09)
      else None)"

text \<open>
  The characters of a string after its opening quote, up to the closing quote, and the
  rest of the text.
\<close>

fun parseChars :: "string \<Rightarrow> (string \<times> string) option" where
  "parseChars [] = None"
| "parseChars [c] = (if c = CHR 0x22 then Some ([], []) else None)"
| "parseChars (c # e # cs) =
     (if c = CHR 0x22 then Some ([], e # cs)
      else if c = CHR 0x5C then
        (if e = CHR ''u'' then
           (if length cs < 4 then None
            else (case hexVal 0 (take 4 cs) of
                    None \<Rightarrow> None
                  | Some n \<Rightarrow>
                      (case parseChars (drop 4 cs) of
                         None \<Rightarrow> None
                       | Some (t, r) \<Rightarrow> Some (utf8 n @ t, r))))
         else (case escapeChar e of
                 None \<Rightarrow> None
               | Some x \<Rightarrow>
                   (case parseChars cs of
                      None \<Rightarrow> None
                    | Some (t, r) \<Rightarrow> Some (x # t, r))))
      else if (of_char c :: nat) < 32 then None
      else (case parseChars (e # cs) of
              None \<Rightarrow> None
            | Some (t, r) \<Rightarrow> Some (c # t, r)))"

text \<open>The fraction and the exponent of a number, each optional.\<close>

definition parseFraction :: "string \<Rightarrow> (string \<times> string) option" where
  "parseFraction s =
     (case s of
        [] \<Rightarrow> Some ([], s)
      | c # cs \<Rightarrow>
          if c = CHR ''.''
          then (if takeWhile isDigit cs = [] then None
                else Some (takeWhile isDigit cs, dropWhile isDigit cs))
          else Some ([], s))"

definition parseExponent :: "string \<Rightarrow> ((bool \<times> nat) \<times> string) option" where
  "parseExponent s =
     (case s of
        [] \<Rightarrow> Some ((False, 0), s)
      | c # cs \<Rightarrow>
          if c = CHR ''e'' \<or> c = CHR ''E''
          then
            (let (neg, r) =
                   (case cs of
                      [] \<Rightarrow> (False, cs)
                    | d # ds \<Rightarrow>
                        if d = CHR ''-'' then (True, ds)
                        else if d = CHR ''+'' then (False, ds)
                        else (False, cs))
             in if takeWhile isDigit r = [] then None
                else Some ((neg, digitsVal (takeWhile isDigit r)), dropWhile isDigit r))
          else Some ((False, 0), s))"

definition parseNumber :: "string \<Rightarrow> (real \<times> string) option" where
  "parseNumber s =
     (let (neg, s1) =
            (case s of
               [] \<Rightarrow> (False, s)
             | c # cs \<Rightarrow> if c = CHR ''-'' then (True, cs) else (False, s))
      in case s1 of
           [] \<Rightarrow> None
         | c # cs \<Rightarrow>
             if \<not> isDigit c then None
             else
               (let (ip, s2) =
                      (if c = CHR ''0'' then ([c], cs)
                       else (takeWhile isDigit s1, dropWhile isDigit s1))
                in case parseFraction s2 of
                     None \<Rightarrow> None
                   | Some (fp, s3) \<Rightarrow>
                       (case parseExponent s3 of
                          None \<Rightarrow> None
                        | Some ((eneg, e), s4) \<Rightarrow>
                            (let m = real (digitsVal ip)
                                       + real (digitsVal fp) / 10 ^ length fp;
                                 v = (if eneg then m / 10 ^ e else m * 10 ^ e)
                             in Some (if neg then - v else v, s4)))))"

fun parseValue :: "nat \<Rightarrow> string \<Rightarrow> (json \<times> string) option"
  and parseElements :: "nat \<Rightarrow> string \<Rightarrow> (json list \<times> string) option"
  and parseMembers :: "nat \<Rightarrow> string \<Rightarrow> ((string \<times> json) list \<times> string) option"
where
  "parseValue 0 s = None"
| "parseValue (Suc n) s =
     (case skipSpace s of
        [] \<Rightarrow> None
      | c # cs \<Rightarrow>
          if c = CHR ''{'' then
            (case skipSpace cs of
               [] \<Rightarrow> None
             | d # ds \<Rightarrow>
                 if d = CHR ''}'' then Some (JObject [], ds)
                 else (case parseMembers n (d # ds) of
                         None \<Rightarrow> None
                       | Some (ms, r) \<Rightarrow> Some (JObject ms, r)))
          else if c = CHR ''['' then
            (case skipSpace cs of
               [] \<Rightarrow> None
             | d # ds \<Rightarrow>
                 if d = CHR '']'' then Some (JArray [], ds)
                 else (case parseElements n (d # ds) of
                         None \<Rightarrow> None
                       | Some (vs, r) \<Rightarrow> Some (JArray vs, r)))
          else if c = CHR 0x22 then
            (case parseChars cs of
               None \<Rightarrow> None
             | Some (t, r) \<Rightarrow> Some (JString t, r))
          else if take 4 (c # cs) = ''true'' then Some (JBool True, drop 4 (c # cs))
          else if take 5 (c # cs) = ''false'' then Some (JBool False, drop 5 (c # cs))
          else if take 4 (c # cs) = ''null'' then Some (JNull, drop 4 (c # cs))
          else (case parseNumber (c # cs) of
                  None \<Rightarrow> None
                | Some (v, r) \<Rightarrow> Some (JNumber v, r)))"
| "parseElements 0 s = None"
| "parseElements (Suc n) s =
     (case parseValue n s of
        None \<Rightarrow> None
      | Some (v, r) \<Rightarrow>
          (case skipSpace r of
             [] \<Rightarrow> None
           | c # cs \<Rightarrow>
               if c = CHR '','' then
                 (case parseElements n cs of
                    None \<Rightarrow> None
                  | Some (vs, r') \<Rightarrow> Some (v # vs, r'))
               else if c = CHR '']'' then Some ([v], cs)
               else None))"
| "parseMembers 0 s = None"
| "parseMembers (Suc n) s =
     (case skipSpace s of
        [] \<Rightarrow> None
      | c # cs \<Rightarrow>
          if c \<noteq> CHR 0x22 then None
          else
            (case parseChars cs of
               None \<Rightarrow> None
             | Some (k, r) \<Rightarrow>
                 (case skipSpace r of
                    [] \<Rightarrow> None
                  | d # ds \<Rightarrow>
                      if d \<noteq> CHR '':'' then None
                      else
                        (case parseValue n ds of
                           None \<Rightarrow> None
                         | Some (v, r2) \<Rightarrow>
                             (case skipSpace r2 of
                                [] \<Rightarrow> None
                              | e # es \<Rightarrow>
                                  if e = CHR '','' then
                                    (case parseMembers n es of
                                       None \<Rightarrow> None
                                     | Some (ms, r3) \<Rightarrow> Some ((k, v) # ms, r3))
                                  else if e = CHR ''}'' then Some ([(k, v)], es)
                                  else None)))))"

definition JSON_parse :: "string \<Rightarrow> json option" where
  "JSON_parse text =
     (case parseValue (Suc (length text)) text of
        None \<Rightarrow> None
      | Some (v, r) \<Rightarrow> if skipSpace r = [] then Some v else None)"

subsection \<open>Parsing the response\<close>



section \<open>Example values\<close>

text \<open>Small scenes and commands, for the concrete instances below.\<close>

definition exampleBody :: "string \<Rightarrow> string \<Rightarrow> BodyDef" where
  "exampleBody i t =
     \<lparr> body_id = i, body_type = t, body_x = Fin 400, body_y = Fin 200,
       body_width = None, body_height = None, body_radius = None, body_angle = None,
       body_isStatic = False, body_color = None, body_friction = None \<rparr>"

definition exampleConstraint :: "'r \<Rightarrow> 'r option \<Rightarrow> 'r ConstraintDef" where
  "exampleConstraint a b =
     \<lparr> bodyAId = a, bodyBId = b, pointB = None, stiffness = None, length_c = None \<rparr>"

definition frictionOnly :: "string \<Rightarrow> jsnum \<Rightarrow> BodyUpdate" where
  "frictionOnly i f =
     \<lparr> upd_id = i, upd_type = None, upd_x = None, upd_y = None, upd_width = None,
       upd_height = None, upd_radius = None, upd_angle = None, upd_isStatic = None,
       upd_color = None, upd_friction = Some f \<rparr>"

definition emptyResponse :: "'r VoiceCommandResponse" where
  "emptyResponse =
     \<lparr> summary = None, newBodies = None, updatedBodies = None, newConstraints = None,
       removeBodyIds = None \<rparr>"

definition emptyScene :: SceneConfig where
  "emptyScene = \<lparr>bodies = [], constraints = []\<rparr>"

definition pendulumResponse :: "string VoiceCommandResponse" where
  "pendulumResponse =
     emptyResponse
       \<lparr> newBodies := Some [exampleBody ''pivot'' ''circle'', exampleBody ''bob'' ''circle''],
         newConstraints := Some [exampleConstraint ''pivot'' (Some ''bob'')] \<rparr>"

definition ghostResponse :: "string VoiceCommandResponse" where
  "ghostResponse = emptyResponse \<lparr>newConstraints := Some [exampleConstraint ''ghost'' None]\<rparr>"

definition ghostCommand :: "bodyRef VoiceCommandResponse" where
  "ghostCommand =
     emptyResponse \<lparr>newConstraints := Some [exampleConstraint (IdString ''ghost'') None]\<rparr>"


section \<open>Properties of the numeric sanitizer\<close>

lemma sanitizeNumber_value:
  "sanitizeNumber v (Fin lo) (Fin hi) (map_option Fin fb) =
     (case parseFloat v of
        Fin n \<Rightarrow> Fin (min (max n lo) hi)
      | _ \<Rightarrow> (case fb of Some f \<Rightarrow> Fin f | None \<Rightarrow> Fin lo))"
  by (cases "parseFloat v"; cases fb)
     (auto simp: sanitizeNumber_def Math_min_def Math_max_def Let_def min_def max_def)

text \<open>
  C5, as the code has it. When the parsed value is NaN or not finite, \<open>sanitizeNumber\<close>
  returns the fallback as it was given, whatever it is, a real or not. With real bounds
  and a real (or missing) fallback, \<open>sanitizeNumber\<close> returns a real for every value, a
  number or \<open>undefined\<close>: the fallback (the lower bound when there is none) when the
  parsed value is NaN or not finite, and the parsed value clamped between the bounds
  otherwise. When the lower bound is at most the upper one and the fallback lies between
  them, the result lies between them too, and sanitizing the result again returns it
  unchanged.
\<close>

theorem sanitizeNumber_total_idempotent:
  "(isNaN (parseFloat v) \<or> \<not> isFinite (parseFloat v) \<longrightarrow>
      sanitizeNumber v mn mx (Some f) = f \<and> sanitizeNumber v mn mx None = mn) \<and>
   (\<exists>r. sanitizeNumber v (Fin lo) (Fin hi) (map_option Fin fb) = Fin r) \<and>
   sanitizeNumber v (Fin lo) (Fin hi) (map_option Fin fb) =
     (if isNaN (parseFloat v) \<or> \<not> isFinite (parseFloat v)
      then (case fb of Some f \<Rightarrow> Fin f | None \<Rightarrow> Fin lo)
      else (case parseFloat v of Fin n \<Rightarrow> Fin (min (max n lo) hi) | _ \<Rightarrow> NaN)) \<and>
   (lo \<le> hi \<and> (\<forall>f. fb = Some f \<longrightarrow> lo \<le> f \<and> f \<le> hi) \<longrightarrow>
      (\<exists>r. sanitizeNumber v (Fin lo) (Fin hi) (map_option Fin fb) = Fin r \<and> lo \<le> r \<and> r \<le> hi) \<and>
      sanitizeNumber (Some (sanitizeNumber v (Fin lo) (Fin hi) (map_option Fin fb)))
          (Fin lo) (Fin hi) (map_option Fin fb)
        = sanitizeNumber v (Fin lo) (Fin hi) (map_option Fin fb))"
proof -
  have a: "sanitizeNumber v mn mx (Some f) = f \<and> sanitizeNumber v mn mx None = mn"
    if "isNaN (parseFloat v) \<or> \<not> isFinite (parseFloat v)"
    using that by (auto simp: sanitizeNumber_def Let_def)
  have b: "(\<exists>r. sanitizeNumber v (Fin lo) (Fin hi) (map_option Fin fb) = Fin r) \<and>
   sanitizeNumber v (Fin lo) (Fin hi) (map_option Fin fb) =
     (if isNaN (parseFloat v) \<or> \<not> isFinite (parseFloat v)
      then (case fb of Some f \<Rightarrow> Fin f | None \<Rightarrow> Fin lo)
      else (case parseFloat v of Fin n \<Rightarrow> Fin (min (max n lo) hi) | _ \<Rightarrow> NaN)) \<and>
   (lo \<le> hi \<and> (\<forall>f. fb = Some f \<longrightarrow> lo \<le> f \<and> f \<le> hi) \<longrightarrow>
      (\<exists>r. sanitizeNumber v (Fin lo) (Fin hi) (map_option Fin fb) = Fin r \<and> lo \<le> r \<and> r \<le> hi) \<and>
      sanitizeNumber (Some (sanitizeNumber v (Fin lo) (Fin hi) (map_option Fin fb)))
          (Fin lo) (Fin hi) (map_option Fin fb)
        = sanitizeNumber v (Fin lo) (Fin hi) (map_option Fin fb))"
    unfolding sanitizeNumber_value
    by (cases "parseFloat v"; cases fb) (auto simp: sanitizeNumber_value)
  from a b show ?thesis by blast
qed

theorem sanitizeNumber_total_idempotent_witness:
  "sanitizeNumber None (Fin 1) (Fin 1000) None = Fin 1 \<and>
   (- 2000 :: real) \<le> 2000 \<and>
   (\<exists>r. sanitizeNumber (Some (Fin 5000)) (Fin (- 2000)) (Fin 2000) (map_option Fin (Some 400)) = Fin r
        \<and> - 2000 \<le> r \<and> r \<le> 2000) \<and>
   sanitizeNumber
       (Some (sanitizeNumber (Some (Fin 5000)) (Fin (- 2000)) (Fin 2000) (map_option Fin (Some 400))))
       (Fin (- 2000)) (Fin 2000) (map_option Fin (Some 400))
     = sanitizeNumber (Some (Fin 5000)) (Fin (- 2000)) (Fin 2000) (map_option Fin (Some 400)) \<and>
   sanitizeNumber (Some (Fin 5000)) (Fin (- 2000)) (Fin 2000) (map_option Fin (Some 400)) = Fin 2000"
proof -
  have h: "(- 2000 :: real) \<le> 2000 \<and>
           (\<forall>f. Some (400::real) = Some f \<longrightarrow> - 2000 \<le> f \<and> f \<le> 2000)"
    by simp
  have v: "sanitizeNumber (Some (Fin 5000)) (Fin (- 2000)) (Fin 2000) (map_option Fin (Some 400))
             = Fin 2000"
    by (simp add: sanitizeNumber_def Math_min_def Math_max_def)
  have n: "isNaN (parseFloat None) \<or> \<not> isFinite (parseFloat None)"
    by simp
  from sanitizeNumber_total_idempotent [of None "Fin 1" "Fin 1000" _ 1 1000 None] n
  have m: "sanitizeNumber None (Fin 1) (Fin 1000) None = Fin 1"
    by blast
  from sanitizeNumber_total_idempotent [of "Some (Fin 5000)" _ _ _ "- 2000" 2000 "Some 400"] h v m
  show ?thesis by blast
qed

text \<open>
  C5 as stated fails: the result is not always a real. An updated body's position is
  sanitized with the position itself as the fallback, so a position that is not finite
  (the number \<open>1e999\<close> of a response is read as infinity) comes back as it is.
\<close>

theorem sanitizeNumber_counterexample:
  "sanitizeNumber (Some PosInf) (Fin (- 2000)) (Fin 2000) (Some PosInf) = PosInf \<and>
   upd_x (sanitizeUpdatedBody ((frictionOnly ''box'' (Fin 0.9)) \<lparr>upd_x := Some PosInf\<rparr>))
     = Some PosInf \<and>
   \<not> isFinite PosInf"
  by (simp add: sanitizeNumber_def sanitizeUpdatedBody_def frictionOnly_def)

section \<open>Properties of the gravity update\<close>

lemma scaled_Fin: "js_mul (Fin a) GRAVITY_SCALE_FACTOR = Fin (a * (1 / 9.81))"
  by (simp add: js_mul_def GRAVITY_SCALE_FACTOR_def)

lemma scaled_nonfinite:
  "js_mul NaN GRAVITY_SCALE_FACTOR = NaN"
  "js_mul PosInf GRAVITY_SCALE_FACTOR = PosInf"
  "js_mul NegInf GRAVITY_SCALE_FACTOR = NegInf"
  by (simp_all add: js_mul_def GRAVITY_SCALE_FACTOR_def)

lemma clamp_Fin:
  "Math_min (Math_max (Fin a) (Fin lo)) (Fin hi) = Fin (min (max a lo) hi)"
  by (auto simp: Math_min_def Math_max_def min_def max_def)

text \<open>
  C4. Each axis of the gravity vector is multiplied by 1/9.81 and clamped to [-10, 10]; an
  axis whose scaled value is not finite becomes 0 on the horizontal axis and 1 on the
  vertical one. So (0, 9.81) gives (0, 1), (0, 24.79) gives the vertical component
  24.79/9.81, which lies between 2.527 and 2.5271 and below 10, and (NaN, Infinity) gives
  (0, 1).
\<close>

theorem engineGravity_normalizes:
  "px (engineGravity (ps\<lparr>gravity := \<lparr>px = Fin a, py = gy\<rparr>\<rparr>))
      = Fin (min (max (a * (1 / 9.81)) (- 10)) 10) \<and>
   py (engineGravity (ps\<lparr>gravity := \<lparr>px = gx, py = Fin b\<rparr>\<rparr>))
      = Fin (min (max (b * (1 / 9.81)) (- 10)) 10) \<and>
   px (engineGravity (ps\<lparr>gravity := \<lparr>px = NaN, py = gy\<rparr>\<rparr>)) = Fin 0 \<and>
   px (engineGravity (ps\<lparr>gravity := \<lparr>px = PosInf, py = gy\<rparr>\<rparr>)) = Fin 0 \<and>
   px (engineGravity (ps\<lparr>gravity := \<lparr>px = NegInf, py = gy\<rparr>\<rparr>)) = Fin 0 \<and>
   py (engineGravity (ps\<lparr>gravity := \<lparr>px = gx, py = NaN\<rparr>\<rparr>)) = Fin 1 \<and>
   py (engineGravity (ps\<lparr>gravity := \<lparr>px = gx, py = PosInf\<rparr>\<rparr>)) = Fin 1 \<and>
   py (engineGravity (ps\<lparr>gravity := \<lparr>px = gx, py = NegInf\<rparr>\<rparr>)) = Fin 1 \<and>
   engineGravity (ps\<lparr>gravity := \<lparr>px = Fin 0, py = Fin 9.81\<rparr>\<rparr>) = \<lparr>px = Fin 0, py = Fin 1\<rparr> \<and>
   py (engineGravity (ps\<lparr>gravity := \<lparr>px = Fin 0, py = Fin 24.79\<rparr>\<rparr>)) = Fin (24.79 / 9.81) \<and>
   (2.527 :: real) < 24.79 / 9.81 \<and> (24.79 / 9.81 :: real) < 2.5271 \<and> (24.79 / 9.81 :: real) \<le> 10 \<and>
   engineGravity (ps\<lparr>gravity := \<lparr>px = NaN, py = PosInf\<rparr>\<rparr>) = \<lparr>px = Fin 0, py = Fin 1\<rparr>"
  by (simp add: engineGravity_def normalizedX_def normalizedY_def scaled_Fin scaled_nonfinite clamp_Fin)

theorem engineGravity_normalizes_witness:
  "engineGravity (\<lparr>gravity = \<lparr>px = Fin 0, py = Fin 0\<rparr>, timeScale = Fin 1,
       enableCollisionEffects = True\<rparr> \<lparr>gravity := \<lparr>px = Fin 0, py = Fin 9.81\<rparr>\<rparr>)
     = \<lparr>px = Fin 0, py = Fin 1\<rparr>"
  using engineGravity_normalizes
    [where ps = "\<lparr>gravity = \<lparr>px = Fin 0, py = Fin 0\<rparr>, timeScale = Fin 1,
                  enableCollisionEffects = True\<rparr>"]
  by blast

section \<open>Properties of the wheel zoom\<close>

lemma handleWheel_width:
  "boundsWidth (handleWheel canvas d b) =
     (if d > 0 then (if boundsWidth b > 4000 then boundsWidth b else boundsWidth b * 1.1)
      else (if boundsWidth b < 100 then boundsWidth b else boundsWidth b * 0.9))"
  by (simp add: handleWheel_def boundsWidth_def Render_lookAt_def Let_def field_simps)

lemma handleWheel_range:
  assumes "90 \<le> boundsWidth b" "boundsWidth b \<le> 4400"
  shows "90 \<le> boundsWidth (handleWheel canvas d b) \<and> boundsWidth (handleWheel canvas d b) \<le> 4400"
  using assms by (simp add: handleWheel_width)

lemma wheelEvents_range:
  assumes "90 \<le> boundsWidth b" "boundsWidth b \<le> 4400"
  shows "90 \<le> boundsWidth (wheelEvents canvas ds b) \<and> boundsWidth (wheelEvents canvas ds b) \<le> 4400"
  using assms
proof (induction ds arbitrary: b)
  case Nil
  then show ?case by (simp add: wheelEvents_def)
next
  case (Cons d ds)
  from handleWheel_range [OF Cons.prems, of canvas d]
  have "90 \<le> boundsWidth (wheelEvents canvas ds (handleWheel canvas d b)) \<and>
        boundsWidth (wheelEvents canvas ds (handleWheel canvas d b)) \<le> 4400"
    using Cons.IH by blast
  then show ?case by (simp add: wheelEvents_def)
qed

lemma handleWheel_skip_out: "boundsWidth b > 4000 \<Longrightarrow> d > 0 \<Longrightarrow> handleWheel canvas d b = b"
  by (simp add: handleWheel_def boundsWidth_def Let_def)

lemma handleWheel_skip_in: "boundsWidth b < 100 \<Longrightarrow> \<not> d > 0 \<Longrightarrow> handleWheel canvas d b = b"
  by (simp add: handleWheel_def boundsWidth_def Let_def)

text \<open>
  On a canvas of positive size the library's \<open>Render.lookAt\<close> leaves a box of the
  canvas's ratio and of positive width as it is, and the box that \<open>handleWheel\<close>
  passes to it is such a box when the current box has a positive width.
\<close>

lemma Render_lookAt_fit_same_ratio:
  assumes "0 < canvas_width canvas" "0 < canvas_height canvas"
    and "0 < vx (bmax box) - vx (bmin box)"
    and "vy (bmax box) - vy (bmin box)
           = (vx (bmax box) - vx (bmin box)) * (canvas_height canvas / canvas_width canvas)"
  shows "Render_lookAt_fit canvas box = Render_lookAt box"
proof -
  let ?w = "vx (bmax box) - vx (bmin box)"
  let ?h = "vy (bmax box) - vy (bmin box)"
  have q: "w / (w * (b / a)) = a / b" if "0 < w" "0 < a" "0 < b" for w a b :: real
    using that by (simp add: field_simps)
  have "?w / ?h = ?w / (?w * (canvas_height canvas / canvas_width canvas))"
    by (simp only: assms(4))
  also have "\<dots> = canvas_width canvas / canvas_height canvas"
    using assms(3) assms(1) assms(2) by (rule q)
  finally have r: "?w / ?h = canvas_width canvas / canvas_height canvas" .
  from assms have nz: "canvas_width canvas / canvas_height canvas \<noteq> 0"
    by simp
  show ?thesis
    unfolding Render_lookAt_fit_def Render_lookAt_def Let_def r
    using nz by simp
qed

lemma handleWheel_lookAt_exact:
  assumes "0 < canvas_width canvas" "0 < canvas_height canvas" "0 < boundsWidth b"
  shows "handleWheel canvas d b
           = (if (d > 0 \<and> boundsWidth b > 4000) \<or> (\<not> d > 0 \<and> boundsWidth b < 100) then b
              else Render_lookAt_fit canvas (handleWheel canvas d b))"
proof (cases "(d > 0 \<and> boundsWidth b > 4000) \<or> (\<not> d > 0 \<and> boundsWidth b < 100)")
  case True
  then show ?thesis by (auto simp: handleWheel_skip_out handleWheel_skip_in)
next
  case False
  let ?r = "handleWheel canvas d b"
  define newDx where "newDx = boundsWidth b * (if d > 0 then 1.1 else 0.9)"
  define cx where "cx = (vx (bmin b) + vx (bmax b)) / 2"
  define cy where "cy = (vy (bmin b) + vy (bmax b)) / 2"
  define newDy where "newDy = newDx * (canvas_height canvas / canvas_width canvas)"
  have half: "(c + x / 2) - (c - x / 2) = x" for c x :: real
    by simp
  have eq: "?r = \<lparr> bmin = \<lparr>vx = cx - newDx / 2, vy = cy - newDy / 2\<rparr>,
                   bmax = \<lparr>vx = cx + newDx / 2, vy = cy + newDy / 2\<rparr> \<rparr>"
    using False
    by (auto simp: handleWheel_def boundsWidth_def Render_lookAt_def Let_def
          newDx_def newDy_def cx_def cy_def)
  have w: "vx (bmax ?r) - vx (bmin ?r) = newDx"
    by (simp only: eq Bounds.simps Vector.simps half)
  have "vy (bmax ?r) - vy (bmin ?r) = newDy"
    by (simp only: eq Bounds.simps Vector.simps half)
  then have h: "vy (bmax ?r) - vy (bmin ?r)
             = (vx (bmax ?r) - vx (bmin ?r)) * (canvas_height canvas / canvas_width canvas)"
    by (simp only: w newDy_def)
  from assms(3) have "0 < newDx" by (simp add: newDx_def)
  then have p: "0 < vx (bmax ?r) - vx (bmin ?r)" by (simp only: w)
  from Render_lookAt_fit_same_ratio [OF assms(1) assms(2) p h] False
  show ?thesis by (auto simp: Render_lookAt_def)
qed

lemma initialView_width:
  assumes "0 < canvas_width canvas" "0 < canvas_height canvas"
  shows "boundsWidth (initialView canvas)
           = max 1000 (800 * canvas_width canvas / canvas_height canvas)"
proof -
  define r where "r = canvas_width canvas / canvas_height canvas"
  have "boundsWidth (initialView canvas)
          = (if 1000 / 800 > r then 1000 else 1000 * (r / (1000 / 800)))"
    unfolding initialView_def Render_lookAt_fit_def boundsWidth_def PADDING_def Let_def
      r_def [symmetric]
    by simp
  also have "\<dots> = max 1000 (800 * r)"
    by (simp add: max_def)
  also have "800 * r = 800 * canvas_width canvas / canvas_height canvas"
    by (simp add: r_def)
  finally show ?thesis .
qed

text \<open>
  C3, as the code has it. The handler tests the width the box has before the zoom: a
  zoom-out is refused, and the box left as it is, exactly when that width is above 4000,
  and a zoom-in exactly when it is below 100. A zoom-out that is applied gives a width of
  at most 4400 and a zoom-in that is applied one of at least 90. For a box whose width is
  between 90 and 4400, every run of wheel events leaves the width between 90 and 4400.
\<close>

theorem handleWheel_zoom_bounds:
  "(d > 0 \<and> boundsWidth b > 4000 \<longrightarrow> handleWheel canvas d b = b) \<and>
   (\<not> d > 0 \<and> boundsWidth b < 100 \<longrightarrow> handleWheel canvas d b = b) \<and>
   (d > 0 \<and> boundsWidth b \<le> 4000 \<longrightarrow>
      boundsWidth (handleWheel canvas d b) = boundsWidth b * 1.1 \<and>
      boundsWidth (handleWheel canvas d b) \<le> 4400) \<and>
   (\<not> d > 0 \<and> boundsWidth b \<ge> 100 \<longrightarrow>
      boundsWidth (handleWheel canvas d b) = boundsWidth b * 0.9 \<and>
      boundsWidth (handleWheel canvas d b) \<ge> 90) \<and>
   (90 \<le> boundsWidth b \<and> boundsWidth b \<le> 4400 \<longrightarrow>
      90 \<le> boundsWidth (wheelEvents canvas ds b) \<and>
      boundsWidth (wheelEvents canvas ds b) \<le> 4400)"
  using wheelEvents_range [of b canvas ds]
  by (simp add: handleWheel_skip_out handleWheel_skip_in handleWheel_width)

theorem handleWheel_zoom_bounds_witness:
  "handleWheel \<lparr>canvas_width = 800, canvas_height = 600\<rparr> 1
      \<lparr>bmin = \<lparr>vx = 0, vy = 0\<rparr>, bmax = \<lparr>vx = 4001, vy = 3000\<rparr>\<rparr>
     = \<lparr>bmin = \<lparr>vx = 0, vy = 0\<rparr>, bmax = \<lparr>vx = 4001, vy = 3000\<rparr>\<rparr> \<and>
   handleWheel \<lparr>canvas_width = 800, canvas_height = 600\<rparr> (- 1)
      \<lparr>bmin = \<lparr>vx = 0, vy = 0\<rparr>, bmax = \<lparr>vx = 99, vy = 75\<rparr>\<rparr>
     = \<lparr>bmin = \<lparr>vx = 0, vy = 0\<rparr>, bmax = \<lparr>vx = 99, vy = 75\<rparr>\<rparr> \<and>
   boundsWidth (handleWheel \<lparr>canvas_width = 800, canvas_height = 600\<rparr> 1
      \<lparr>bmin = \<lparr>vx = 0, vy = 0\<rparr>, bmax = \<lparr>vx = 4000, vy = 3000\<rparr>\<rparr>) = 4400 \<and>
   boundsWidth (handleWheel \<lparr>canvas_width = 800, canvas_height = 600\<rparr> (- 1)
      \<lparr>bmin = \<lparr>vx = 0, vy = 0\<rparr>, bmax = \<lparr>vx = 100, vy = 75\<rparr>\<rparr>) = 90 \<and>
   boundsWidth (wheelEvents \<lparr>canvas_width = 800, canvas_height = 600\<rparr> [1, 1, - 1]
      \<lparr>bmin = \<lparr>vx = 0, vy = 0\<rparr>, bmax = \<lparr>vx = 4000, vy = 3000\<rparr>\<rparr>) \<le> 4400"
  using
    handleWheel_zoom_bounds [of 1 "\<lparr>bmin = \<lparr>vx = 0, vy = 0\<rparr>, bmax = \<lparr>vx = 4001, vy = 3000\<rparr>\<rparr>"
      "\<lparr>canvas_width = 800, canvas_height = 600\<rparr>" "[]"]
    handleWheel_zoom_bounds [of "- 1" "\<lparr>bmin = \<lparr>vx = 0, vy = 0\<rparr>, bmax = \<lparr>vx = 99, vy = 75\<rparr>\<rparr>"
      "\<lparr>canvas_width = 800, canvas_height = 600\<rparr>" "[]"]
    handleWheel_zoom_bounds [of 1 "\<lparr>bmin = \<lparr>vx = 0, vy = 0\<rparr>, bmax = \<lparr>vx = 4000, vy = 3000\<rparr>\<rparr>"
      "\<lparr>canvas_width = 800, canvas_height = 600\<rparr>" "[1, 1, - 1]"]
    handleWheel_zoom_bounds [of "- 1" "\<lparr>bmin = \<lparr>vx = 0, vy = 0\<rparr>, bmax = \<lparr>vx = 100, vy = 75\<rparr>\<rparr>"
      "\<lparr>canvas_width = 800, canvas_height = 600\<rparr>" "[]"]
  by (simp add: boundsWidth_def)

text \<open>
  C3 as stated fails. From a box of width 4000 a zoom-out is applied and gives width
  4400, above the bound of 4000 that the handler tests, and the box has changed; from
  width 100 a zoom-in gives 90, below the bound of 100; and from a box of width 5000 a
  zoom-in gives a box of width 4500.
\<close>

theorem zoom_bound_counterexample:
  "boundsWidth \<lparr>bmin = \<lparr>vx = 0, vy = 0\<rparr>, bmax = \<lparr>vx = 4000, vy = 3000\<rparr>\<rparr> = 4000 \<and>
   boundsWidth (handleWheel \<lparr>canvas_width = 800, canvas_height = 600\<rparr> 1
      \<lparr>bmin = \<lparr>vx = 0, vy = 0\<rparr>, bmax = \<lparr>vx = 4000, vy = 3000\<rparr>\<rparr>) = 4400 \<and>
   handleWheel \<lparr>canvas_width = 800, canvas_height = 600\<rparr> 1
      \<lparr>bmin = \<lparr>vx = 0, vy = 0\<rparr>, bmax = \<lparr>vx = 4000, vy = 3000\<rparr>\<rparr>
     \<noteq> \<lparr>bmin = \<lparr>vx = 0, vy = 0\<rparr>, bmax = \<lparr>vx = 4000, vy = 3000\<rparr>\<rparr> \<and>
   boundsWidth (handleWheel \<lparr>canvas_width = 800, canvas_height = 600\<rparr> (- 1)
      \<lparr>bmin = \<lparr>vx = 0, vy = 0\<rparr>, bmax = \<lparr>vx = 100, vy = 75\<rparr>\<rparr>) = 90 \<and>
   boundsWidth (handleWheel \<lparr>canvas_width = 800, canvas_height = 600\<rparr> (- 1)
      \<lparr>bmin = \<lparr>vx = 0, vy = 0\<rparr>, bmax = \<lparr>vx = 5000, vy = 3750\<rparr>\<rparr>) = 4500"
  by (simp add: handleWheel_def boundsWidth_def Render_lookAt_def Let_def)

text \<open>
  C10, as the code has it. On a canvas of positive width and height the initial view has
  width 1000 when the canvas is at most 5/4 as wide as high, and 800 times the canvas's
  width over its height otherwise. When the canvas is at most 5.5 times as wide as high,
  the width lies between 90 and 4400 after any run of wheel events from the initial
  view. A further zoom-out changes nothing when the width is above 4000, and a further
  zoom-in changes nothing when it is below 100; otherwise the width is multiplied by 1.1
  or by 0.9.
\<close>

theorem wheel_zoom_from_initial_view:
  "(0 < canvas_width canvas \<and> 0 < canvas_height canvas \<longrightarrow>
      boundsWidth (initialView canvas)
        = max 1000 (800 * canvas_width canvas / canvas_height canvas)) \<and>
   (0 < canvas_width canvas \<and> 0 < canvas_height canvas \<and>
    canvas_width canvas \<le> 5.5 * canvas_height canvas \<longrightarrow>
      90 \<le> boundsWidth (wheelEvents canvas ds (initialView canvas)) \<and>
      boundsWidth (wheelEvents canvas ds (initialView canvas)) \<le> 4400) \<and>
   (d > 0 \<and> boundsWidth (wheelEvents canvas ds (initialView canvas)) > 4000 \<longrightarrow>
      wheelEvents canvas (ds @ [d]) (initialView canvas)
        = wheelEvents canvas ds (initialView canvas)) \<and>
   (\<not> d > 0 \<and> boundsWidth (wheelEvents canvas ds (initialView canvas)) < 100 \<longrightarrow>
      wheelEvents canvas (ds @ [d]) (initialView canvas)
        = wheelEvents canvas ds (initialView canvas)) \<and>
   (d > 0 \<and> boundsWidth (wheelEvents canvas ds (initialView canvas)) \<le> 4000 \<longrightarrow>
      boundsWidth (wheelEvents canvas (ds @ [d]) (initialView canvas))
        = boundsWidth (wheelEvents canvas ds (initialView canvas)) * 1.1) \<and>
   (\<not> d > 0 \<and> boundsWidth (wheelEvents canvas ds (initialView canvas)) \<ge> 100 \<longrightarrow>
      boundsWidth (wheelEvents canvas (ds @ [d]) (initialView canvas))
        = boundsWidth (wheelEvents canvas ds (initialView canvas)) * 0.9)"
proof -
  have r: "90 \<le> boundsWidth (wheelEvents canvas ds (initialView canvas)) \<and>
           boundsWidth (wheelEvents canvas ds (initialView canvas)) \<le> 4400"
    if p: "0 < canvas_width canvas" "0 < canvas_height canvas"
      and q: "canvas_width canvas \<le> 5.5 * canvas_height canvas"
  proof (rule wheelEvents_range)
    from p q have "800 * canvas_width canvas / canvas_height canvas \<le> 4400"
      by (simp add: field_simps)
    then show "boundsWidth (initialView canvas) \<le> 4400"
      by (simp add: initialView_width [OF p])
    show "90 \<le> boundsWidth (initialView canvas)"
      by (simp add: initialView_width [OF p])
  qed
  have s: "wheelEvents canvas (ds @ [d]) (initialView canvas)
             = handleWheel canvas d (wheelEvents canvas ds (initialView canvas))"
    by (simp add: wheelEvents_def)
  show ?thesis
    using r initialView_width [of canvas]
    by (simp add: s handleWheel_skip_out handleWheel_skip_in handleWheel_width)
qed

theorem wheel_zoom_from_initial_view_witness:
  "boundsWidth (initialView \<lparr>canvas_width = 800, canvas_height = 600\<rparr>) = 3200 / 3 \<and>
   4000 < boundsWidth (wheelEvents \<lparr>canvas_width = 800, canvas_height = 600\<rparr> (replicate 14 1)
                         (initialView \<lparr>canvas_width = 800, canvas_height = 600\<rparr>)) \<and>
   boundsWidth (wheelEvents \<lparr>canvas_width = 800, canvas_height = 600\<rparr> (replicate 14 1)
                  (initialView \<lparr>canvas_width = 800, canvas_height = 600\<rparr>)) \<le> 4400 \<and>
   wheelEvents \<lparr>canvas_width = 800, canvas_height = 600\<rparr> (replicate 14 1 @ [1])
       (initialView \<lparr>canvas_width = 800, canvas_height = 600\<rparr>)
     = wheelEvents \<lparr>canvas_width = 800, canvas_height = 600\<rparr> (replicate 14 1)
         (initialView \<lparr>canvas_width = 800, canvas_height = 600\<rparr>)"
proof -
  let ?c = "\<lparr>canvas_width = 800, canvas_height = 600\<rparr>"
  have c: "0 < canvas_width ?c \<and> 0 < canvas_height ?c \<and>
           canvas_width ?c \<le> 5.5 * canvas_height ?c"
    by simp
  have m: "max 1000 (800 * canvas_width ?c / canvas_height ?c) = 3200 / 3"
    by simp
  have h: "4000 < boundsWidth (wheelEvents ?c (replicate 14 1) (initialView ?c))"
    by (simp add: wheelEvents_def handleWheel_def boundsWidth_def initialView_def
          Render_lookAt_fit_def Render_lookAt_def PADDING_def Let_def numeral_eq_Suc)
  have d: "(0::real) < 1" by simp
  from wheel_zoom_from_initial_view [of ?c "replicate 14 1" 1] c h d
  have "boundsWidth (initialView ?c) = max 1000 (800 * canvas_width ?c / canvas_height ?c) \<and>
        boundsWidth (wheelEvents ?c (replicate 14 1) (initialView ?c)) \<le> 4400 \<and>
        wheelEvents ?c (replicate 14 1 @ [1]) (initialView ?c)
          = wheelEvents ?c (replicate 14 1) (initialView ?c)"
    by blast
  with h show ?thesis by (simp only: m)
qed

text \<open>
  C10 as stated fails. On a canvas of 800 by 600 the initial view has width 3200/3, not
  1000. On a canvas of 4800 by 600 it has width 6400; a zoom-out leaves it there and a
  zoom-in gives 5760, both above 4400.
\<close>

theorem wheel_zoom_counterexample:
  "boundsWidth (initialView \<lparr>canvas_width = 800, canvas_height = 600\<rparr>) = 3200 / 3 \<and>
   boundsWidth (initialView \<lparr>canvas_width = 4800, canvas_height = 600\<rparr>) = 6400 \<and>
   boundsWidth (wheelEvents \<lparr>canvas_width = 4800, canvas_height = 600\<rparr> [1]
                  (initialView \<lparr>canvas_width = 4800, canvas_height = 600\<rparr>)) = 6400 \<and>
   boundsWidth (wheelEvents \<lparr>canvas_width = 4800, canvas_height = 600\<rparr> [- 1]
                  (initialView \<lparr>canvas_width = 4800, canvas_height = 600\<rparr>)) = 5760"
  by (simp add: wheelEvents_def handleWheel_def boundsWidth_def initialView_def
        Render_lookAt_fit_def Render_lookAt_def PADDING_def Let_def)

section \<open>Properties of the contact effect\<close>

lemma collisionStart_last:
  "enableCollisionEffects ps \<Longrightarrow>
   collisionStart ps (pairs @ [Some p]) flash
     = Some \<lparr>flash_x = px p, flash_y = py p, flash_frame = 0\<rparr>"
  by (simp add: collisionStart_def)

text \<open>
  C9, as the code has it. With collision effects on, a contact whose last support point
  has a coordinate that is not finite replaces the flash by that point at frame 0; the
  render step then draws no spark for it and leaves it as it is. With collision effects
  off, a contact leaves the flash unchanged.
\<close>

theorem nonfinite_contact_stored_not_drawn:
  "(enableCollisionEffects ps \<and> (\<not> isFinite (px p) \<or> \<not> isFinite (py p)) \<longrightarrow>
      collisionStart ps (pairs @ [Some p]) flash
        = Some \<lparr>flash_x = px p, flash_y = py p, flash_frame = 0\<rparr> \<and>
      afterRender (collisionStart ps (pairs @ [Some p]) flash)
        = (None, collisionStart ps (pairs @ [Some p]) flash)) \<and>
   (\<not> enableCollisionEffects ps \<longrightarrow> collisionStart ps pairs flash = flash)"
  by (auto simp: collisionStart_last afterRender_def) (simp_all add: collisionStart_def)

theorem nonfinite_contact_stored_not_drawn_witness:
  "collisionStart \<lparr>gravity = \<lparr>px = Fin 0, py = Fin 9.81\<rparr>, timeScale = Fin 1, enableCollisionEffects = True\<rparr>
      ([] @ [Some \<lparr>px = NaN, py = Fin 0\<rparr>]) (Some \<lparr>flash_x = Fin 1, flash_y = Fin 2, flash_frame = 3\<rparr>)
     = Some \<lparr>flash_x = px \<lparr>px = NaN, py = Fin 0\<rparr>, flash_y = py \<lparr>px = NaN, py = Fin 0\<rparr>, flash_frame = 0\<rparr> \<and>
   afterRender (collisionStart
        \<lparr>gravity = \<lparr>px = Fin 0, py = Fin 9.81\<rparr>, timeScale = Fin 1, enableCollisionEffects = True\<rparr>
        ([] @ [Some \<lparr>px = NaN, py = Fin 0\<rparr>]) (Some \<lparr>flash_x = Fin 1, flash_y = Fin 2, flash_frame = 3\<rparr>))
     = (None, collisionStart
        \<lparr>gravity = \<lparr>px = Fin 0, py = Fin 9.81\<rparr>, timeScale = Fin 1, enableCollisionEffects = True\<rparr>
        ([] @ [Some \<lparr>px = NaN, py = Fin 0\<rparr>]) (Some \<lparr>flash_x = Fin 1, flash_y = Fin 2, flash_frame = 3\<rparr>))"
proof -
  have h: "enableCollisionEffects
             \<lparr>gravity = \<lparr>px = Fin 0, py = Fin 9.81\<rparr>, timeScale = Fin 1, enableCollisionEffects = True\<rparr> \<and>
           (\<not> isFinite (px \<lparr>px = NaN, py = Fin 0\<rparr>) \<or> \<not> isFinite (py \<lparr>px = NaN, py = Fin 0\<rparr>))"
    by simp
  from nonfinite_contact_stored_not_drawn
      [of "\<lparr>gravity = \<lparr>px = Fin 0, py = Fin 9.81\<rparr>, timeScale = Fin 1, enableCollisionEffects = True\<rparr>"
          "\<lparr>px = NaN, py = Fin 0\<rparr>" "[]" "Some \<lparr>flash_x = Fin 1, flash_y = Fin 2, flash_frame = 3\<rparr>"] h
  show ?thesis by blast
qed

text \<open>
  C9 as stated fails. A contact at (NaN, 0) replaces an active flash at (1, 2) of frame 3
  by a flash at (NaN, 0) of frame 0, and from no flash it stores that flash; the flash at
  (1, 2) would have been drawn and aged, the stored one is not.
\<close>

theorem nonfinite_contact_counterexample:
  "collisionStart \<lparr>gravity = \<lparr>px = Fin 0, py = Fin 9.81\<rparr>, timeScale = Fin 1, enableCollisionEffects = True\<rparr>
      [Some \<lparr>px = NaN, py = Fin 0\<rparr>] (Some \<lparr>flash_x = Fin 1, flash_y = Fin 2, flash_frame = 3\<rparr>)
     = Some \<lparr>flash_x = NaN, flash_y = Fin 0, flash_frame = 0\<rparr> \<and>
   collisionStart \<lparr>gravity = \<lparr>px = Fin 0, py = Fin 9.81\<rparr>, timeScale = Fin 1, enableCollisionEffects = True\<rparr>
      [Some \<lparr>px = NaN, py = Fin 0\<rparr>] None
     = Some \<lparr>flash_x = NaN, flash_y = Fin 0, flash_frame = 0\<rparr> \<and>
   afterRender (Some \<lparr>flash_x = Fin 1, flash_y = Fin 2, flash_frame = 3\<rparr>)
     = (Some \<lparr>spark_x = Fin 1, spark_y = Fin 2, spark_radius = 22\<rparr>,
        Some \<lparr>flash_x = Fin 1, flash_y = Fin 2, flash_frame = 4\<rparr>) \<and>
   afterRender (Some \<lparr>flash_x = NaN, flash_y = Fin 0, flash_frame = 0\<rparr>)
     = (None, Some \<lparr>flash_x = NaN, flash_y = Fin 0, flash_frame = 0\<rparr>)"
  by (simp add: collisionStart_def afterRender_def)

section \<open>Properties of sanitizing, remapping and applying a command\<close>

lemmas example_defs = exampleBody_def exampleConstraint_def frictionOnly_def emptyResponse_def
  emptyScene_def

lemmas apply_defs = applyCommand_def handleAdditionsAndUpdates_def handleRemovals_def
  processUpdates_def nonEmpty_def orEmpty_def sceneOrEmpty_def Let_def

lemmas sanitize_defs = sanitizeCommand_def sanitizeNewBody_def sanitizeConstraint_def
  buildIdMap_def idMapSet_def idMapGet_def objectPrototypeNames_def newId_def truthy_def

lemmas invariant_defs = sceneInvariant_def uniqueIds_def noDangling_def resolves_def bodyIds_def

subsection \<open>Updated bodies\<close>

lemma sceneOrEmpty_simps:
  "sceneOrEmpty (Some s) = s"
  "sceneOrEmpty None = \<lparr>bodies = [], constraints = []\<rparr>"
  by (simp_all add: sceneOrEmpty_def)

lemma findIndex_None: "findIndex P xs = None \<longleftrightarrow> (\<forall>x \<in> set xs. \<not> P x)"
  by (induction xs) auto

lemma findIndex_Some:
  "findIndex P xs = Some i \<Longrightarrow> i < length xs \<and> P (xs ! i) \<and> (\<forall>j<i. \<not> P (xs ! j))"
proof (induction xs arbitrary: i)
  case Nil
  then show ?case by simp
next
  case (Cons x xs)
  show ?case
  proof (cases "P x")
    case True
    with Cons.prems show ?thesis by simp
  next
    case False
    with Cons.prems obtain k where k: "findIndex P xs = Some k" "i = Suc k"
      by auto
    from Cons.IH [OF k(1)] False k(2) show ?thesis
      by (auto simp: nth_Cons split: nat.splits)
  qed
qed

lemma spreadUpdate_id: "body_id (spreadUpdate b u) = upd_id u"
  by (simp add: spreadUpdate_def)

lemma applyUpdatedBody_ids: "map body_id (applyUpdatedBody bs u) = map body_id bs"
proof (cases "findIndex (\<lambda>b. body_id b = upd_id u) bs")
  case None
  then show ?thesis by (simp add: applyUpdatedBody_def)
next
  case (Some i)
  from findIndex_Some [OF Some] have "i < length bs" "body_id (bs ! i) = upd_id u"
    by auto
  then show ?thesis
    by (simp add: applyUpdatedBody_def Some map_update spreadUpdate_id list_update_same_conv)
qed

lemma processUpdates_ids: "map body_id (processUpdates bs ups) = map body_id bs"
proof (cases ups)
  case None
  then show ?thesis by (simp add: processUpdates_def)
next
  case (Some us)
  have "map body_id (foldl applyUpdatedBody bs us) = map body_id bs"
    by (induction us arbitrary: bs) (simp_all add: applyUpdatedBody_ids)
  with Some show ?thesis by (simp add: processUpdates_def)
qed

lemma applyUpdatedBody_missing:
  "upd_id u \<notin> body_id ` set bs \<Longrightarrow> applyUpdatedBody bs u = bs"
proof -
  assume "upd_id u \<notin> body_id ` set bs"
  then have "findIndex (\<lambda>b. body_id b = upd_id u) bs = None"
    by (force simp: findIndex_None)
  then show ?thesis by (simp add: applyUpdatedBody_def)
qed

lemma applyUpdatedBody_found:
  assumes "upd_id u \<in> body_id ` set bs"
  shows "\<exists>i<length bs. body_id (bs ! i) = upd_id u \<and> (\<forall>j<i. body_id (bs ! j) \<noteq> upd_id u) \<and>
           applyUpdatedBody bs u = bs [i := spreadUpdate (bs ! i) u]"
proof -
  from assms have "findIndex (\<lambda>b. body_id b = upd_id u) bs \<noteq> None"
    by (auto simp: findIndex_None)
  then obtain i where i: "findIndex (\<lambda>b. body_id b = upd_id u) bs = Some i"
    by auto
  from findIndex_Some [OF i] i show ?thesis
    by (auto simp: applyUpdatedBody_def)
qed

lemma distinct_ids_index:
  assumes "distinct (map body_id bs)" "b \<in> set bs" "i < length bs" "body_id (bs ! i) = body_id b"
  shows "bs ! i = b"
proof -
  from assms(2) obtain k where k: "k < length bs" "bs ! k = b"
    by (auto simp: in_set_conv_nth)
  with assms have "map body_id bs ! i = map body_id bs ! k" by simp
  with assms(1,3) k(1) have "i = k"
    using nth_eq_iff_index_eq [of "map body_id bs" i k] by simp
  with k show ?thesis by simp
qed

lemma foldl_applyUpdatedBody_ids:
  "map body_id (foldl applyUpdatedBody bs us) = map body_id bs"
  by (induction us arbitrary: bs) (simp_all add: applyUpdatedBody_ids)

lemma filter_list_update_other:
  "\<not> P (xs ! k) \<Longrightarrow> \<not> P y \<Longrightarrow> k < length xs \<Longrightarrow> filter P (xs [k := y]) = filter P xs"
proof (induction xs arbitrary: k)
  case Nil
  then show ?case by simp
next
  case (Cons x xs)
  then show ?case by (cases k) auto
qed

lemma applyUpdatedBody_other_id:
  assumes "upd_id w \<noteq> i"
  shows "filter (\<lambda>b. body_id b = i) (applyUpdatedBody bs w) = filter (\<lambda>b. body_id b = i) bs"
proof (cases "findIndex (\<lambda>b. body_id b = upd_id w) bs")
  case None
  then show ?thesis by (simp add: applyUpdatedBody_def)
next
  case (Some k)
  from findIndex_Some [OF Some] have k: "k < length bs" "body_id (bs ! k) = upd_id w"
    by auto
  with assms show ?thesis
    by (simp add: applyUpdatedBody_def Some filter_list_update_other spreadUpdate_id)
qed

lemma foldl_applyUpdatedBody_other_ids:
  "\<forall>w \<in> set us. upd_id w \<noteq> i \<Longrightarrow>
   filter (\<lambda>b. body_id b = i) (foldl applyUpdatedBody bs us) = filter (\<lambda>b. body_id b = i) bs"
  by (induction us arbitrary: bs) (simp_all add: applyUpdatedBody_other_id)

lemma applyUpdatedBody_member:
  assumes "distinct (map body_id bs)" "b \<in> set bs" "body_id b = upd_id u"
  shows "spreadUpdate b u \<in> set (applyUpdatedBody bs u)"
proof -
  from assms(2,3) have "upd_id u \<in> body_id ` set bs" by force
  from applyUpdatedBody_found [OF this]
  obtain i where i: "i < length bs" "body_id (bs ! i) = upd_id u"
    "applyUpdatedBody bs u = bs [i := spreadUpdate (bs ! i) u]"
    by blast
  from assms i(1,2) have "bs ! i = b"
    by (intro distinct_ids_index) simp_all
  with i show ?thesis by (simp add: set_update_memI)
qed

lemma processUpdates_single_fragment:
  assumes d: "distinct (map body_id bs)" and b: "b \<in> set bs" "body_id b = upd_id u"
    and o: "\<forall>w \<in> set us1 \<union> set us2. upd_id w \<noteq> upd_id u"
  shows "spreadUpdate b u \<in> set (foldl applyUpdatedBody bs (us1 @ u # us2))"
proof -
  let ?i = "upd_id u"
  let ?F = "filter (\<lambda>b. body_id b = ?i)"
  let ?bs1 = "foldl applyUpdatedBody bs us1"
  let ?bs2 = "applyUpdatedBody ?bs1 u"
  from o have "?F ?bs1 = ?F bs"
    by (intro foldl_applyUpdatedBody_other_ids) simp
  moreover from b have "b \<in> set (?F bs)" by simp
  ultimately have "b \<in> set (?F ?bs1)" by simp
  then have b1: "b \<in> set ?bs1" by simp
  from d have d1: "distinct (map body_id ?bs1)"
    by (simp add: foldl_applyUpdatedBody_ids)
  from applyUpdatedBody_member [OF d1 b1 b(2)]
  have "spreadUpdate b u \<in> set (?F ?bs2)"
    by (simp add: spreadUpdate_id)
  moreover from o have "?F (foldl applyUpdatedBody ?bs2 us2) = ?F ?bs2"
    by (intro foldl_applyUpdatedBody_other_ids) simp
  ultimately have "spreadUpdate b u \<in> set (?F (foldl applyUpdatedBody ?bs2 us2))"
    by simp
  then show ?thesis by simp
qed

lemma processUpdates_missing_fragment:
  assumes "upd_id u \<notin> body_id ` set bs"
  shows "foldl applyUpdatedBody bs (us1 @ u # us2) = foldl applyUpdatedBody bs (us1 @ us2)"
proof -
  have "set (map body_id (foldl applyUpdatedBody bs us1)) = set (map body_id bs)"
    by (simp only: foldl_applyUpdatedBody_ids)
  with assms have "upd_id u \<notin> body_id ` set (foldl applyUpdatedBody bs us1)"
    by simp
  from applyUpdatedBody_missing [OF this] show ?thesis by simp
qed

lemma applyCommand_some_fragment:
  assumes us: "updatedBodies cmd = Some (us1 @ u # us2)"
    and o: "\<forall>w \<in> set us1 \<union> set us2. upd_id w \<noteq> upd_id u"
    and r: "upd_id u \<notin> set (orEmpty (removeBodyIds cmd))"
    and s: "uniqueIds s" "b \<in> set (bodies s)" "body_id b = upd_id u"
  shows "\<exists>s'. applyCommand cmd (Some s) = Some s' \<and> spreadUpdate b u \<in> set (bodies s')"
proof -
  from s have mem: "spreadUpdate b u \<in> set (foldl applyUpdatedBody (bodies s) (us1 @ u # us2))"
    by (intro processUpdates_single_fragment o) (simp_all add: uniqueIds_def)
  have ne: "nonEmpty (updatedBodies cmd)" by (simp add: nonEmpty_def us)
  show ?thesis
    using mem r
    by (cases "removeBodyIds cmd")
       (auto simp: applyCommand_def handleAdditionsAndUpdates_def handleRemovals_def ne
          processUpdates_def us Let_def nonEmpty_def orEmpty_def spreadUpdate_id
          sceneOrEmpty_simps simp del: foldl_append)
qed

lemma handleRemovals_same_ids:
  "removeBodyIds c1 = removeBodyIds c2 \<Longrightarrow> handleRemovals c1 st = handleRemovals c2 st"
  unfolding handleRemovals_def by (cases st) simp_all

lemma applyCommand_missing_fragment:
  assumes us: "updatedBodies cmd = Some (us1 @ u # us2)"
    and m: "upd_id u \<notin> body_id ` set (bodies s)"
  shows "applyCommand cmd (Some s) = applyCommand (cmd \<lparr>updatedBodies := Some (us1 @ us2)\<rparr>) (Some s)"
proof -
  have h: "handleAdditionsAndUpdates cmd (Some s)
             = handleAdditionsAndUpdates (cmd \<lparr>updatedBodies := Some (us1 @ us2)\<rparr>) (Some s)"
    using processUpdates_missing_fragment [OF m, of us1 us2]
    by (auto simp: handleAdditionsAndUpdates_def processUpdates_def us Let_def nonEmpty_def
          orEmpty_def sceneOrEmpty_simps simp del: foldl_append split: option.splits)
  have "removeBodyIds cmd = removeBodyIds (cmd \<lparr>updatedBodies := Some (us1 @ us2)\<rparr>)"
    by simp
  from handleRemovals_same_ids [OF this] show ?thesis
    by (simp add: applyCommand_def h)
qed

text \<open>
  C7, as the code has it. One updated-body fragment, applied to the list of bodies: when
  no body has the fragment's id the list is unchanged; when one has, the first such body
  is replaced by the spread of the body and the fragment, and nothing else changes. In the spread every
  field the fragment has is the fragment's and every other field is the body's, so a
  fragment that has only a friction leaves position, type and sizes as they were. For a
  command that holds the fragment, and no other fragment of the same id, on a scene with
  unique ids: the scene after the command holds the updated body, unless the command
  removes that id. And when no body of the scene has the fragment's id, the scene after
  the command is the scene after the command without the fragment.
\<close>

theorem update_fragment_frame:
  "(upd_id u \<notin> body_id ` set bs \<longrightarrow> applyUpdatedBody bs u = bs) \<and>
   (upd_id u \<in> body_id ` set bs \<longrightarrow>
      (\<exists>i<length bs. body_id (bs ! i) = upd_id u \<and> (\<forall>j<i. body_id (bs ! j) \<noteq> upd_id u) \<and>
         applyUpdatedBody bs u = bs [i := spreadUpdate (bs ! i) u])) \<and>
   body_id (spreadUpdate b u) = upd_id u \<and>
   body_type (spreadUpdate b u) = (case upd_type u of Some v \<Rightarrow> v | None \<Rightarrow> body_type b) \<and>
   body_x (spreadUpdate b u) = (case upd_x u of Some v \<Rightarrow> v | None \<Rightarrow> body_x b) \<and>
   body_y (spreadUpdate b u) = (case upd_y u of Some v \<Rightarrow> v | None \<Rightarrow> body_y b) \<and>
   body_width (spreadUpdate b u) = (case upd_width u of Some v \<Rightarrow> Some v | None \<Rightarrow> body_width b) \<and>
   body_height (spreadUpdate b u) = (case upd_height u of Some v \<Rightarrow> Some v | None \<Rightarrow> body_height b) \<and>
   body_radius (spreadUpdate b u) = (case upd_radius u of Some v \<Rightarrow> Some v | None \<Rightarrow> body_radius b) \<and>
   body_angle (spreadUpdate b u) = (case upd_angle u of Some v \<Rightarrow> Some v | None \<Rightarrow> body_angle b) \<and>
   body_isStatic (spreadUpdate b u) = (case upd_isStatic u of Some v \<Rightarrow> v | None \<Rightarrow> body_isStatic b) \<and>
   body_color (spreadUpdate b u) = (case upd_color u of Some v \<Rightarrow> Some v | None \<Rightarrow> body_color b) \<and>
   body_friction (spreadUpdate b u)
     = (case upd_friction u of Some v \<Rightarrow> Some v | None \<Rightarrow> body_friction b) \<and>
   (updatedBodies cmd = Some (us1 @ u # us2) \<and>
    (\<forall>w \<in> set us1 \<union> set us2. upd_id w \<noteq> upd_id u) \<and>
    upd_id u \<notin> set (orEmpty (removeBodyIds cmd)) \<and>
    uniqueIds s \<and> b \<in> set (bodies s) \<and> body_id b = upd_id u \<longrightarrow>
      (\<exists>s'. applyCommand cmd (Some s) = Some s' \<and> spreadUpdate b u \<in> set (bodies s'))) \<and>
   (updatedBodies cmd = Some (us1 @ u # us2) \<and> upd_id u \<notin> body_id ` set (bodies s) \<longrightarrow>
      applyCommand cmd (Some s)
        = applyCommand (cmd \<lparr>updatedBodies := Some (us1 @ us2)\<rparr>) (Some s))"
proof -
  have fields:
    "body_id (spreadUpdate b u) = upd_id u \<and>
     body_type (spreadUpdate b u) = (case upd_type u of Some v \<Rightarrow> v | None \<Rightarrow> body_type b) \<and>
     body_x (spreadUpdate b u) = (case upd_x u of Some v \<Rightarrow> v | None \<Rightarrow> body_x b) \<and>
     body_y (spreadUpdate b u) = (case upd_y u of Some v \<Rightarrow> v | None \<Rightarrow> body_y b) \<and>
     body_width (spreadUpdate b u) = (case upd_width u of Some v \<Rightarrow> Some v | None \<Rightarrow> body_width b) \<and>
     body_height (spreadUpdate b u) = (case upd_height u of Some v \<Rightarrow> Some v | None \<Rightarrow> body_height b) \<and>
     body_radius (spreadUpdate b u) = (case upd_radius u of Some v \<Rightarrow> Some v | None \<Rightarrow> body_radius b) \<and>
     body_angle (spreadUpdate b u) = (case upd_angle u of Some v \<Rightarrow> Some v | None \<Rightarrow> body_angle b) \<and>
     body_isStatic (spreadUpdate b u) = (case upd_isStatic u of Some v \<Rightarrow> v | None \<Rightarrow> body_isStatic b) \<and>
     body_color (spreadUpdate b u) = (case upd_color u of Some v \<Rightarrow> Some v | None \<Rightarrow> body_color b) \<and>
     body_friction (spreadUpdate b u)
       = (case upd_friction u of Some v \<Rightarrow> Some v | None \<Rightarrow> body_friction b)"
    by (simp add: spreadUpdate_def)
  show ?thesis
    using applyUpdatedBody_missing [of u bs] applyUpdatedBody_found [of u bs] fields
      applyCommand_some_fragment [of cmd us1 u us2 s b]
      applyCommand_missing_fragment [of cmd us1 u us2 s]
    by blast
qed

theorem update_fragment_frame_witness:
  "applyUpdatedBody [exampleBody ''box'' ''rectangle''] (frictionOnly ''ghost'' (Fin 0.9))
     = [exampleBody ''box'' ''rectangle''] \<and>
   (\<exists>s'. applyCommand
            (emptyResponse \<lparr>updatedBodies := Some ([] @ frictionOnly ''box'' (Fin 0.9) # [])\<rparr>)
            (Some \<lparr>bodies = [exampleBody ''box'' ''rectangle''], constraints = []\<rparr>) = Some s' \<and>
         spreadUpdate (exampleBody ''box'' ''rectangle'') (frictionOnly ''box'' (Fin 0.9))
           \<in> set (bodies s')) \<and>
   spreadUpdate (exampleBody ''box'' ''rectangle'') (frictionOnly ''box'' (Fin 0.9))
     = (exampleBody ''box'' ''rectangle'') \<lparr>body_friction := Some (Fin 0.9)\<rparr>"
proof -
  let ?b = "exampleBody ''box'' ''rectangle''"
  let ?u = "frictionOnly ''box'' (Fin 0.9)"
  let ?cmd = "emptyResponse \<lparr>updatedBodies := Some ([] @ ?u # [])\<rparr>"
  let ?s = "\<lparr>bodies = [?b], constraints = []\<rparr>"
  have h1: "upd_id (frictionOnly ''ghost'' (Fin 0.9)) \<notin> body_id ` set [?b]"
    by (simp add: example_defs)
  have h2: "updatedBodies ?cmd = Some ([] @ ?u # []) \<and>
            (\<forall>w \<in> set [] \<union> set []. upd_id w \<noteq> upd_id ?u) \<and>
            upd_id ?u \<notin> set (orEmpty (removeBodyIds ?cmd)) \<and>
            uniqueIds ?s \<and> ?b \<in> set (bodies ?s) \<and> body_id ?b = upd_id ?u"
    by (simp add: example_defs orEmpty_def uniqueIds_def)
  have v: "spreadUpdate ?b ?u = ?b \<lparr>body_friction := Some (Fin 0.9)\<rparr>"
    by (simp add: example_defs spreadUpdate_def)
  from update_fragment_frame [of "frictionOnly ''ghost'' (Fin 0.9)" "[?b]" ?b ?cmd "[]" "[]" ?s]
  have a: "applyUpdatedBody [?b] (frictionOnly ''ghost'' (Fin 0.9)) = [?b]"
    using h1 by blast
  from update_fragment_frame [of ?u "[?b]" ?b ?cmd "[]" "[]" ?s] h2
  have b: "\<exists>s'. applyCommand ?cmd (Some ?s) = Some s' \<and> spreadUpdate ?b ?u \<in> set (bodies s')"
    by blast
  from a b v show ?thesis by blast
qed

text \<open>
  C7 as stated fails. A command that updates the friction of \<open>box\<close> and removes
  \<open>box\<close> leaves a scene without that body. Of two fragments for \<open>box\<close>, with
  frictions 0.9 and 0.2, the scene after the command has the second one's friction, not
  the first one's. And in a scene with two bodies of the id \<open>box\<close> only the first is
  updated.
\<close>

theorem update_fragment_counterexample:
  "applyCommand
       (emptyResponse \<lparr>updatedBodies := Some [frictionOnly ''box'' (Fin 0.9)],
                       removeBodyIds := Some [''box'']\<rparr>)
       (Some \<lparr>bodies = [exampleBody ''box'' ''rectangle''], constraints = []\<rparr>)
     = Some \<lparr>bodies = [], constraints = []\<rparr> \<and>
   map_option (\<lambda>s. map body_friction (bodies s))
       (applyCommand
          (emptyResponse \<lparr>updatedBodies := Some [frictionOnly ''box'' (Fin 0.9),
                                                     frictionOnly ''box'' (Fin 0.2)]\<rparr>)
          (Some \<lparr>bodies = [exampleBody ''box'' ''rectangle''], constraints = []\<rparr>))
     = Some [Some (Fin 0.2)] \<and>
   map_option (\<lambda>s. map body_friction (bodies s))
       (applyCommand
          (emptyResponse \<lparr>updatedBodies := Some [frictionOnly ''box'' (Fin 0.9)]\<rparr>)
          (Some \<lparr>bodies = [exampleBody ''box'' ''rectangle'', exampleBody ''box'' ''rectangle''],
                  constraints = []\<rparr>))
     = Some [Some (Fin 0.9), None]"
  by (simp add: example_defs apply_defs applyUpdatedBody_def spreadUpdate_def)

subsection \<open>Identity remapping\<close>

lemma buildIdMap_foldl:
  "foldl (\<lambda>idMap b. idMapSet idMap (body_id b) (newId ts (body_id b))) m bs k
     = (if k \<in> body_id ` set bs \<and> k \<noteq> ''__proto__'' then Some (newId ts k) else m k)"
  by (induction bs arbitrary: m) (auto simp: idMapSet_def)

lemma buildIdMap_lookup:
  "buildIdMap ts bs k
     = (if k \<in> body_id ` set bs \<and> k \<noteq> ''__proto__'' then Some (newId ts k) else None)"
  by (simp add: buildIdMap_def buildIdMap_foldl)

lemma proto_inherited: "''__proto__'' \<in> set objectPrototypeNames"
  by (simp add: objectPrototypeNames_def)

lemma idMapGet_buildIdMap:
  "idMapGet (buildIdMap ts bs) k
     = (if k \<in> body_id ` set bs \<and> k \<noteq> ''__proto__'' then Some (IdString (newId ts k))
        else if k \<in> set objectPrototypeNames then Some (InheritedObject k)
        else None)"
  by (simp add: idMapGet_def buildIdMap_lookup)

lemma inherited_truthy: "k \<in> set objectPrototypeNames \<Longrightarrow> truthy k"
  by (auto simp: objectPrototypeNames_def truthy_def)

lemma truthy_newId: "truthy (newId ts k)"
  by (simp add: truthy_def newId_def)

lemma sanitizeConstraint_bodyAId:
  "bodyAId (sanitizeConstraint (buildIdMap ts bs) c)
     = (if bodyAId c \<in> body_id ` set bs \<and> bodyAId c \<noteq> ''__proto__''
        then IdString (newId ts (bodyAId c))
        else if bodyAId c \<in> set objectPrototypeNames then InheritedObject (bodyAId c)
        else IdString (bodyAId c))"
  by (simp add: sanitizeConstraint_def idMapGet_buildIdMap truthy_newId)

lemma sanitizeConstraint_bodyBId:
  "bodyBId (sanitizeConstraint (buildIdMap ts bs) c)
     = (case bodyBId c of
          None \<Rightarrow> None
        | Some b \<Rightarrow>
            if truthy b \<and> b \<in> body_id ` set bs \<and> b \<noteq> ''__proto__''
            then Some (IdString (newId ts b))
            else if b \<in> set objectPrototypeNames then Some (InheritedObject b)
            else Some (IdString b))"
proof (cases "bodyBId c")
  case None
  then show ?thesis by (simp add: sanitizeConstraint_def)
next
  case (Some b)
  show ?thesis
  proof (cases "truthy b")
    case True
    with Some show ?thesis
      by (simp add: sanitizeConstraint_def idMapGet_buildIdMap truthy_newId)
  next
    case False
    with inherited_truthy [of b] have "b \<notin> set objectPrototypeNames" by blast
    with False Some show ?thesis
      by (simp add: sanitizeConstraint_def)
  qed
qed

lemma sanitizeNewBody_id: "body_id (sanitizeNewBody ts b) = body_id b @ ''_'' @ ts"
  by (simp add: sanitizeNewBody_def newId_def)

lemma sanitizeCommand_newConstraints:
  "newConstraints (sanitizeCommand ts cmd)
     = map_option (map (sanitizeConstraint (buildIdMap ts (orEmpty (newBodies cmd)))))
         (newConstraints cmd)"
  by (cases "newBodies cmd") (simp_all add: sanitizeCommand_def orEmpty_def buildIdMap_def)





subsection \<open>New constraints\<close>

lemma dom_bodiesMap_foldl:
  "dom (foldl (\<lambda>m def. if \<not> isFinite (body_x def) \<or> \<not> isFinite (body_y def) then m
                        else m (body_id def \<mapsto> def)) m0 bs)
     \<subseteq> dom m0 \<union> body_id ` set bs"
proof (induction bs arbitrary: m0)
  case Nil
  then show ?case by simp
next
  case (Cons b bs)
  show ?case
    using Cons.IH [of "if \<not> isFinite (body_x b) \<or> \<not> isFinite (body_y b) then m0
                       else m0 (body_id b \<mapsto> b)"]
    by (auto split: if_splits)
qed

lemma dom_bodiesMap: "dom (bodiesMap s) \<subseteq> bodyIds s"
  using dom_bodiesMap_foldl [of Map.empty "bodies s"]
  by (simp add: bodiesMap_def bodyIds_def)

lemma createConstraint_dangling:
  "\<not> namesBody (bodyIds s) (bodyAId c) \<Longrightarrow> createConstraint (bodiesMap s) c = None"
proof -
  assume a: "\<not> namesBody (bodyIds s) (bodyAId c)"
  have "mapGet (bodiesMap s) (bodyAId c) = None"
  proof (cases "bodyAId c")
    case (IdString i)
    with a dom_bodiesMap [of s] show ?thesis by (auto simp: dom_def)
  next
    case (InheritedObject k)
    then show ?thesis by simp
  qed
  then show ?thesis by (simp add: createConstraint_def)
qed

lemma worldConstraints_dangling:
  assumes "\<not> namesBody (bodyIds s) (bodyAId c)"
  shows "worldConstraints (s \<lparr>constraints := constraints s @ [c]\<rparr>) = worldConstraints s"
proof -
  have b: "bodiesMap (s \<lparr>constraints := constraints s @ [c]\<rparr>) = bodiesMap s"
    by (simp add: bodiesMap_def)
  from createConstraint_dangling [OF assms] show ?thesis
    by (simp add: worldConstraints_def b map_filter_def)
qed

text \<open>
  C2, as the code has it. The additions step appends every new constraint to the scene's
  constraints, whatever its \<open>bodyAId\<close> refers to, and it always gives a scene. A new
  constraint is in the scene after the command unless the removals of the same command
  take it out. When the physics world is built from a scene, no engine constraint is made
  for a constraint whose \<open>bodyAId\<close> is the id of no body of the scene: the world's
  constraints are those of the scene without it.
\<close>

theorem dangling_constraint_kept_then_skipped:
  "(nonEmpty (newConstraints cmd) \<longrightarrow>
      (\<exists>s'. handleAdditionsAndUpdates cmd prev = Some s' \<and>
            constraints s' = constraints (sceneOrEmpty prev) @ orEmpty (newConstraints cmd))) \<and>
   (c \<in> set (orEmpty (newConstraints cmd)) \<and>
    \<not> namesBody (set (orEmpty (removeBodyIds cmd))) (bodyAId c) \<and>
    (case bodyBId c of
       None \<Rightarrow> True
     | Some b \<Rightarrow> \<not> truthyRef b \<or> \<not> namesBody (set (orEmpty (removeBodyIds cmd))) b) \<longrightarrow>
      (\<exists>s'. applyCommand cmd prev = Some s' \<and> c \<in> set (constraints s'))) \<and>
   (\<not> namesBody (bodyIds s) (bodyAId c) \<longrightarrow>
      createConstraint (bodiesMap s) c = None \<and>
      worldConstraints (s \<lparr>constraints := constraints s @ [c]\<rparr>) = worldConstraints s)"
proof -
  have a: "\<exists>s'. handleAdditionsAndUpdates cmd prev = Some s' \<and>
            constraints s' = constraints (sceneOrEmpty prev) @ orEmpty (newConstraints cmd)"
    if "nonEmpty (newConstraints cmd)"
    using that by (simp add: handleAdditionsAndUpdates_def Let_def)
  have b: "\<exists>s'. applyCommand cmd prev = Some s' \<and> c \<in> set (constraints s')"
    if h: "c \<in> set (orEmpty (newConstraints cmd))"
          "\<not> namesBody (set (orEmpty (removeBodyIds cmd))) (bodyAId c)"
          "case bodyBId c of
             None \<Rightarrow> True
           | Some b \<Rightarrow> \<not> truthyRef b \<or> \<not> namesBody (set (orEmpty (removeBodyIds cmd))) b"
  proof -
    from h(1) have "nonEmpty (newConstraints cmd)"
      by (cases "newConstraints cmd") (auto simp: nonEmpty_def orEmpty_def)
    from a [OF this] h show ?thesis
      by (auto simp: applyCommand_def handleRemovals_def Let_def)
  qed
  show ?thesis
    using a b createConstraint_dangling [of s c] worldConstraints_dangling [of s c] by blast
qed

theorem dangling_constraint_kept_then_skipped_witness:
  "(\<exists>s'. handleAdditionsAndUpdates ghostCommand (Some emptyScene) = Some s' \<and>
         constraints s' = constraints (sceneOrEmpty (Some emptyScene))
                            @ orEmpty (newConstraints ghostCommand)) \<and>
   (\<exists>s'. applyCommand ghostCommand (Some emptyScene) = Some s' \<and>
         exampleConstraint (IdString ''ghost'') None \<in> set (constraints s')) \<and>
   createConstraint (bodiesMap emptyScene) (exampleConstraint (IdString ''ghost'') None) = None \<and>
   worldConstraints
       (emptyScene \<lparr>constraints := constraints emptyScene
                                    @ [exampleConstraint (IdString ''ghost'') None]\<rparr>)
     = worldConstraints emptyScene"
proof -
  let ?c = "exampleConstraint (IdString ''ghost'') None"
  have h1: "nonEmpty (newConstraints ghostCommand)"
    by (simp add: ghostCommand_def example_defs nonEmpty_def)
  have h2: "?c \<in> set (orEmpty (newConstraints ghostCommand)) \<and>
            \<not> namesBody (set (orEmpty (removeBodyIds ghostCommand))) (bodyAId ?c) \<and>
            (case bodyBId ?c of
               None \<Rightarrow> True
             | Some b \<Rightarrow> \<not> truthyRef b
                          \<or> \<not> namesBody (set (orEmpty (removeBodyIds ghostCommand))) b)"
    by (simp add: ghostCommand_def example_defs orEmpty_def)
  have h3: "\<not> namesBody (bodyIds emptyScene) (bodyAId ?c)"
    by (simp add: bodyIds_def emptyScene_def exampleConstraint_def)
  from dangling_constraint_kept_then_skipped [of ghostCommand "Some emptyScene" ?c emptyScene]
       h1 h2 h3
  show ?thesis by blast
qed

text \<open>
  C2 as stated fails: on the empty scene, a command whose only content is a constraint on
  the unknown id \<open>ghost\<close> gives a scene that holds that constraint and no body.
\<close>

theorem dangling_constraint_counterexample:
  "applyCommand (sanitizeCommand ''1234'' ghostResponse) (Some emptyScene)
     = Some \<lparr>bodies = [], constraints = [exampleConstraint (IdString ''ghost'') None]\<rparr> \<and>
   \<not> namesBody
       (bodyIds \<lparr>bodies = [], constraints = [exampleConstraint (IdString ''ghost'') None]\<rparr>)
       (bodyAId (exampleConstraint (IdString ''ghost'') None))"
  by (simp add: ghostResponse_def example_defs apply_defs sanitize_defs bodyIds_def)

subsection \<open>The invariants across a command\<close>

lemma handleRemovals_invariant:
  assumes "sceneInvariant st"
  shows "sceneInvariant (handleRemovals cmd st)"
proof (cases "nonEmpty (removeBodyIds cmd)")
  case False
  with assms show ?thesis by (simp add: handleRemovals_def)
next
  case True
  show ?thesis
  proof (cases st)
    case None
    then show ?thesis by (simp add: handleRemovals_def sceneInvariant_def)
  next
    case (Some s)
    with assms have u: "distinct (map body_id (bodies s))"
      and d: "list_all (resolves (bodyIds s)) (constraints s)"
      by (simp_all add: sceneInvariant_def uniqueIds_def noDangling_def)
    let ?rm = "set (orEmpty (removeBodyIds cmd))"
    let ?bs = "filter (\<lambda>b. body_id b \<notin> ?rm) (bodies s)"
    have ids: "set (map body_id ?bs) = bodyIds s - ?rm"
      by (auto simp: bodyIds_def)
    have u': "distinct (map body_id ?bs)"
      using u by (simp add: distinct_map_filter)
    have nb: "namesBody (A - B) r" if "namesBody A r" "\<not> namesBody B r" for A B r
      using that by (cases r) auto
    have d': "resolves (bodyIds s - ?rm) c"
      if "c \<in> set (constraints s)" "\<not> namesBody ?rm (bodyAId c)"
         "case bodyBId c of None \<Rightarrow> True | Some b \<Rightarrow> \<not> truthyRef b \<or> \<not> namesBody ?rm b" for c
      using that d by (auto simp: resolves_def list_all_iff nb split: option.splits)
    show ?thesis
      using u' d' ids True
      by (auto simp: handleRemovals_def Some sceneInvariant_def uniqueIds_def noDangling_def
            bodyIds_def Let_def list_all_iff)
  qed
qed

lemma namesBody_mono: "namesBody A r \<Longrightarrow> A \<subseteq> B \<Longrightarrow> namesBody B r"
  by (cases r) auto

lemma resolves_mono: "resolves A c \<Longrightarrow> A \<subseteq> B \<Longrightarrow> resolves B c"
  by (auto simp: resolves_def namesBody_mono split: option.splits)

lemma handleAdditionsAndUpdates_invariant:
  assumes inv: "sceneInvariant prev"
    and fresh: "distinct (map body_id (orEmpty (newBodies cmd)))"
               "set (map body_id (orEmpty (newBodies cmd))) \<inter> bodyIds (sceneOrEmpty prev) = {}"
    and res: "list_all (resolves (bodyIds (sceneOrEmpty prev)
                         \<union> set (map body_id (orEmpty (newBodies cmd)))))
                (orEmpty (newConstraints cmd))"
  shows "sceneInvariant (handleAdditionsAndUpdates cmd prev)"
proof (cases "nonEmpty (newBodies cmd) \<or> nonEmpty (newConstraints cmd)
                \<or> nonEmpty (updatedBodies cmd)")
  case False
  with inv show ?thesis by (simp add: handleAdditionsAndUpdates_def)
next
  case True
  let ?cur = "sceneOrEmpty prev"
  let ?nb = "orEmpty (newBodies cmd)"
  let ?bs = "processUpdates (bodies ?cur) (updatedBodies cmd) @ ?nb"
  let ?cs = "constraints ?cur @ orEmpty (newConstraints cmd)"
  from inv have u: "distinct (map body_id (bodies ?cur))"
    and d: "list_all (resolves (bodyIds ?cur)) (constraints ?cur)"
    by (auto simp: sceneInvariant_def sceneOrEmpty_def uniqueIds_def noDangling_def
          split: option.splits)
  have ids: "map body_id ?bs = map body_id (bodies ?cur) @ map body_id ?nb"
    by (simp add: processUpdates_ids)
  have "distinct (map body_id (bodies ?cur) @ map body_id ?nb)"
    using u fresh by (auto simp: bodyIds_def)
  then have u': "distinct (map body_id ?bs)"
    by (simp only: ids)
  have idset: "set (map body_id ?bs) = bodyIds ?cur \<union> set (map body_id ?nb)"
    by (simp only: ids) (simp add: bodyIds_def)
  have "list_all (resolves (bodyIds ?cur \<union> set (map body_id ?nb))) (constraints ?cur)"
    using d by (auto simp: list_all_iff intro: resolves_mono)
  with res have d': "list_all (resolves (set (map body_id ?bs))) ?cs"
    by (simp only: idset) simp
  have eq: "handleAdditionsAndUpdates cmd prev = Some (?cur \<lparr>bodies := ?bs, constraints := ?cs\<rparr>)"
    using True by (simp add: handleAdditionsAndUpdates_def sceneOrEmpty_def Let_def)
  show ?thesis
    using u' d' by (simp add: eq sceneInvariant_def uniqueIds_def noDangling_def bodyIds_def)
qed

lemma newId_inj: "newId ts a = newId ts b \<longleftrightarrow> a = b"
  by (simp add: newId_def)

lemma sanitized_newBody_ids:
  "map body_id (orEmpty (newBodies (sanitizeCommand ts raw)))
     = map (newId ts) (map body_id (orEmpty (newBodies raw)))"
  by (cases "newBodies raw")
     (simp_all add: sanitizeCommand_def orEmpty_def sanitizeNewBody_id newId_def Let_def)

lemma sanitized_constraints:
  "orEmpty (newConstraints (sanitizeCommand ts raw))
     = map (sanitizeConstraint (buildIdMap ts (orEmpty (newBodies raw))))
         (orEmpty (newConstraints raw))"
  by (cases "newConstraints raw") (simp_all add: sanitizeCommand_newConstraints orEmpty_def)

lemma sanitizeConstraint_resolves:
  assumes "resolves (old \<union> body_id ` set nbs) (asParsed c)"
    and "plainKey (body_id ` set nbs) (bodyAId c)"
    and "case bodyBId c of None \<Rightarrow> True | Some b \<Rightarrow> plainKey (body_id ` set nbs) b"
  shows "resolves (old \<union> newId ts ` body_id ` set nbs) (sanitizeConstraint (buildIdMap ts nbs) c)"
proof -
  let ?c = "sanitizeConstraint (buildIdMap ts nbs) c"
  have a: "namesBody (old \<union> newId ts ` body_id ` set nbs) (bodyAId ?c)"
    using assms(1,2)
    by (auto simp: resolves_def asParsed_def plainKey_def sanitizeConstraint_bodyAId)
  have b: "\<not> truthyRef r \<or> namesBody (old \<union> newId ts ` body_id ` set nbs) r"
    if "bodyBId ?c = Some r" for r
  proof (cases "bodyBId c")
    case None
    with that show ?thesis by (simp add: sanitizeConstraint_bodyBId)
  next
    case (Some k)
    with assms(3) have pk: "plainKey (body_id ` set nbs) k" by simp
    from assms(1) Some have rk: "\<not> truthy k \<or> k \<in> old \<union> body_id ` set nbs"
      by (simp add: resolves_def asParsed_def)
    show ?thesis
    proof (cases "truthy k \<and> k \<in> body_id ` set nbs")
      case True
      with pk that Some have "r = IdString (newId ts k)"
        by (simp add: sanitizeConstraint_bodyBId plainKey_def)
      with True show ?thesis by auto
    next
      case False
      with pk that Some have "r = IdString k"
        by (auto simp: sanitizeConstraint_bodyBId plainKey_def inherited_truthy
              split: if_splits)
      with rk False show ?thesis by auto
    qed
  qed
  from a b show ?thesis
    by (auto simp: resolves_def split: option.splits)
qed

text \<open>
  C1, as the code has it. Let the scene have unique body ids and no dangling constraint
  reference (a \<open>bodyBId\<close> that is missing or empty refers to nothing), let the new bodies
  of the parsed command have distinct ids whose new ids are not ids of the scene, let
  every new constraint refer to bodies of the scene or to new bodies, and let no
  reference of a new constraint be \<open>__proto__\<close> or a property name of
  \<open>Object.prototype\<close> that is the id of no new body. Then the scene after the sanitized
  command has unique body ids and no dangling constraint reference.
\<close>

theorem merge_preserves_invariant:
  "sceneInvariant prev \<and>
   distinct (map body_id (orEmpty (newBodies raw))) \<and>
   list_all (\<lambda>b. newId ts (body_id b) \<notin> bodyIds (sceneOrEmpty prev)) (orEmpty (newBodies raw)) \<and>
   list_all (\<lambda>c. resolves (bodyIds (sceneOrEmpty prev)
                             \<union> set (map body_id (orEmpty (newBodies raw)))) (asParsed c))
     (orEmpty (newConstraints raw)) \<and>
   list_all (\<lambda>c. plainKey (set (map body_id (orEmpty (newBodies raw)))) (bodyAId c) \<and>
                  (case bodyBId c of
                     None \<Rightarrow> True
                   | Some b \<Rightarrow> plainKey (set (map body_id (orEmpty (newBodies raw)))) b))
     (orEmpty (newConstraints raw))
   \<longrightarrow> sceneInvariant (applyCommand (sanitizeCommand ts raw) prev)"
proof
  assume h: "sceneInvariant prev \<and>
   distinct (map body_id (orEmpty (newBodies raw))) \<and>
   list_all (\<lambda>b. newId ts (body_id b) \<notin> bodyIds (sceneOrEmpty prev)) (orEmpty (newBodies raw)) \<and>
   list_all (\<lambda>c. resolves (bodyIds (sceneOrEmpty prev)
                             \<union> set (map body_id (orEmpty (newBodies raw)))) (asParsed c))
     (orEmpty (newConstraints raw)) \<and>
   list_all (\<lambda>c. plainKey (set (map body_id (orEmpty (newBodies raw)))) (bodyAId c) \<and>
                  (case bodyBId c of
                     None \<Rightarrow> True
                   | Some b \<Rightarrow> plainKey (set (map body_id (orEmpty (newBodies raw)))) b))
     (orEmpty (newConstraints raw))"
  let ?cmd = "sanitizeCommand ts raw"
  let ?nbs = "orEmpty (newBodies raw)"
  let ?old = "bodyIds (sceneOrEmpty prev)"
  have d: "distinct (map body_id (orEmpty (newBodies ?cmd)))"
    using h by (simp add: sanitized_newBody_ids distinct_map inj_on_def newId_inj)
  have f: "set (map body_id (orEmpty (newBodies ?cmd))) \<inter> ?old = {}"
    using h by (auto simp: sanitized_newBody_ids list_all_iff)
  have "resolves (?old \<union> newId ts ` body_id ` set ?nbs)
          (sanitizeConstraint (buildIdMap ts ?nbs) c)"
    if "c \<in> set (orEmpty (newConstraints raw))" for c
  proof (rule sanitizeConstraint_resolves)
    from h that show "resolves (?old \<union> body_id ` set ?nbs) (asParsed c)"
      by (simp add: list_all_iff)
    from h that show "plainKey (body_id ` set ?nbs) (bodyAId c)"
      by (simp add: list_all_iff)
    from h that
    show "case bodyBId c of None \<Rightarrow> True | Some b \<Rightarrow> plainKey (body_id ` set ?nbs) b"
      by (auto simp: list_all_iff split: option.splits)
  qed
  then have r: "list_all (resolves (?old \<union> set (map body_id (orEmpty (newBodies ?cmd)))))
             (orEmpty (newConstraints ?cmd))"
    by (simp add: sanitized_newBody_ids sanitized_constraints list_all_iff image_image)
  from h have "sceneInvariant prev" by simp
  then have "sceneInvariant (handleAdditionsAndUpdates ?cmd prev)"
    using d f r by (rule handleAdditionsAndUpdates_invariant)
  then show "sceneInvariant (applyCommand ?cmd prev)"
    unfolding applyCommand_def by (rule handleRemovals_invariant)
qed

theorem merge_preserves_invariant_witness:
  "sceneInvariant (Some emptyScene) \<and>
   sceneInvariant (applyCommand (sanitizeCommand ''1234'' pendulumResponse) (Some emptyScene)) \<and>
   map_option (\<lambda>s. map body_id (bodies s))
       (applyCommand (sanitizeCommand ''1234'' pendulumResponse) (Some emptyScene))
     = Some [''pivot_1234'', ''bob_1234'']"
proof -
  have h: "sceneInvariant (Some emptyScene) \<and>
     distinct (map body_id (orEmpty (newBodies pendulumResponse))) \<and>
     list_all (\<lambda>b. newId ''1234'' (body_id b) \<notin> bodyIds (sceneOrEmpty (Some emptyScene)))
       (orEmpty (newBodies pendulumResponse)) \<and>
     list_all (\<lambda>c. resolves (bodyIds (sceneOrEmpty (Some emptyScene))
                  \<union> set (map body_id (orEmpty (newBodies pendulumResponse)))) (asParsed c))
       (orEmpty (newConstraints pendulumResponse)) \<and>
     list_all (\<lambda>c. plainKey (set (map body_id (orEmpty (newBodies pendulumResponse)))) (bodyAId c) \<and>
                  (case bodyBId c of
                     None \<Rightarrow> True
                   | Some b \<Rightarrow> plainKey (set (map body_id (orEmpty (newBodies pendulumResponse)))) b))
       (orEmpty (newConstraints pendulumResponse))"
    by (simp add: pendulumResponse_def example_defs invariant_defs orEmpty_def sceneOrEmpty_def
          truthy_def asParsed_def plainKey_def objectPrototypeNames_def)
  have v: "map_option (\<lambda>s. map body_id (bodies s))
       (applyCommand (sanitizeCommand ''1234'' pendulumResponse) (Some emptyScene))
     = Some [''pivot_1234'', ''bob_1234'']"
    by (simp add: pendulumResponse_def example_defs apply_defs sanitize_defs)
  from merge_preserves_invariant [of "Some emptyScene" pendulumResponse "''1234''"] h v
  show ?thesis by blast
qed

text \<open>
  C1 as stated fails. The empty scene has the invariants; after a command with a
  constraint on the unknown id \<open>ghost\<close> the scene holds a dangling constraint; after a
  command with two new bodies of the same id the scene holds two bodies of one id; a
  new body \<open>ball\<close> at timestamp \<open>1234\<close> collides with a body \<open>ball_1234\<close> that the
  scene already has; and after a command with a new body \<open>__proto__\<close> and a constraint
  on it the scene holds a constraint on the inherited object, which names no body.
\<close>

theorem merge_invariant_counterexample:
  "sceneInvariant (Some emptyScene) \<and>
   \<not> sceneInvariant (applyCommand (sanitizeCommand ''1234'' ghostResponse) (Some emptyScene)) \<and>
   \<not> sceneInvariant
       (applyCommand
          (sanitizeCommand ''1234''
             (emptyResponse \<lparr>newBodies := Some [exampleBody ''ball'' ''circle'',
                                                exampleBody ''ball'' ''circle'']\<rparr>))
          (Some emptyScene)) \<and>
   sceneInvariant (Some \<lparr>bodies = [exampleBody ''ball_1234'' ''circle''], constraints = []\<rparr>) \<and>
   \<not> sceneInvariant
       (applyCommand
          (sanitizeCommand ''1234''
             (emptyResponse \<lparr>newBodies := Some [exampleBody ''ball'' ''circle'']\<rparr>))
          (Some \<lparr>bodies = [exampleBody ''ball_1234'' ''circle''], constraints = []\<rparr>)) \<and>
   \<not> sceneInvariant
       (applyCommand
          (sanitizeCommand ''1234''
             (emptyResponse \<lparr>newBodies := Some [exampleBody ''__proto__'' ''circle''],
                             newConstraints := Some [exampleConstraint ''__proto__'' None]\<rparr>))
          (Some emptyScene))"
  by (simp add: ghostResponse_def example_defs apply_defs sanitize_defs invariant_defs)

section \<open>Properties of reading the response\<close>



















subsection \<open>The counter of the JSON reader\<close>

text \<open>
  A value that is read with some counter is read with every counter that is at least the
  number of characters the value takes. So the counter \<open>JSON_parse\<close> starts with never
  runs out: whatever any counter reads, \<open>JSON_parse\<close> reads.
\<close>

lemma parseChars_shorter: "parseChars s = Some (t, r) \<Longrightarrow> length r < length s"
proof (induction s arbitrary: t r rule: parseChars.induct)
  case 1
  then show ?case by simp
next
  case (2 c)
  then show ?case by (simp split: if_splits)
next
  case (3 c e cs)
  show ?case
  proof (cases "c = CHR 0x22")
    case True
    with 3(4) show ?thesis by auto
  next
    case nq: False
    show ?thesis
    proof (cases "c = CHR 0x5C")
      case bs: True
      show ?thesis
      proof (cases "e = CHR ''u''")
        case True
        with nq bs 3(4) obtain n t' where
          l: "\<not> length cs < 4" and hv: "hexVal 0 (take 4 cs) = Some n"
          and p: "parseChars (drop 4 cs) = Some (t', r)"
          by (auto split: if_splits option.splits)
        from 3(1) [OF nq bs True l hv p] show ?thesis by simp
      next
        case False
        with nq bs 3(4) obtain x t' where
          ec: "escapeChar e = Some x" and p: "parseChars cs = Some (t', r)"
          by (auto split: if_splits option.splits)
        from 3(2) [OF nq bs False ec p] show ?thesis by simp
      qed
    next
      case False
      with nq 3(4) obtain t' where
        nc: "\<not> (of_char c :: nat) < 32" and p: "parseChars (e # cs) = Some (t', r)"
        by (auto split: if_splits option.splits)
      from 3(3) [OF nq False nc p] show ?thesis by simp
    qed
  qed
qed

lemma length_dropWhile_less: "length (dropWhile P xs) \<le> length xs"
  by (induction xs) auto

lemma parseFraction_shorter: "parseFraction s = Some (fp, r) \<Longrightarrow> length r \<le> length s"
  using length_dropWhile_less [of isDigit "tl s"]
  by (auto simp: parseFraction_def split: list.splits if_splits)

lemma parseExponent_shorter: "parseExponent s = Some (x, r) \<Longrightarrow> length r \<le> length s"
proof -
  assume a: "parseExponent s = Some (x, r)"
  show ?thesis
  proof (cases s)
    case Nil
    with a show ?thesis by (simp add: parseExponent_def)
  next
    case (Cons c cs)
    show ?thesis
    proof (cases "c = CHR ''e'' \<or> c = CHR ''E''")
      case False
      with a Cons show ?thesis by (auto simp: parseExponent_def)
    next
      case True
      obtain neg q where q: "(case cs of
                      [] \<Rightarrow> (False, cs)
                    | d # ds \<Rightarrow>
                        if d = CHR ''-'' then (True, ds)
                        else if d = CHR ''+'' then (False, ds)
                        else (False, cs)) = (neg, q)"
        by force
      then have lq: "length q \<le> length cs"
        by (auto split: list.splits if_splits)
      from a Cons True q have "r = dropWhile isDigit q"
        by (auto simp: parseExponent_def split: if_splits)
      with lq length_dropWhile_less [of isDigit q] Cons show ?thesis by simp
    qed
  qed
qed

lemma parseNumber_shorter: "parseNumber s = Some (v, r) \<Longrightarrow> length r < length s"
proof -
  assume a: "parseNumber s = Some (v, r)"
  obtain neg s1 where n: "(case s of
               [] \<Rightarrow> (False, s)
             | c # cs \<Rightarrow> if c = CHR ''-'' then (True, cs) else (False, s)) = (neg, s1)"
    by force
  then have l1: "length s1 \<le> length s" by (auto split: list.splits if_splits)
  from a n obtain c cs where s1: "s1 = c # cs" and d: "isDigit c"
    by (cases s1) (auto simp: parseNumber_def split: if_splits)
  obtain ip s2 where i: "(if c = CHR ''0'' then ([c], cs)
                       else (takeWhile isDigit s1, dropWhile isDigit s1)) = (ip, s2)"
    by force
  have l2: "length s2 < length s1"
  proof (cases "c = CHR ''0''")
    case True
    with i s1 show ?thesis by auto
  next
    case False
    with i s1 d have "s2 = dropWhile isDigit cs" by auto
    with length_dropWhile_less [of isDigit cs] s1 show ?thesis by simp
  qed
  from a n s1 d i obtain fp s3 x where f: "parseFraction s2 = Some (fp, s3)"
    and e: "parseExponent s3 = Some (x, r)"
    by (auto simp: parseNumber_def Let_def split: option.splits if_splits prod.splits)
  from parseFraction_shorter [OF f] parseExponent_shorter [OF e] l1 l2 show ?thesis by simp
qed

lemma skipSpace_length: "length (skipSpace s) \<le> length s"
  by (simp add: skipSpace_def length_dropWhile_less)

lemma skipSpace_Cons_length: "skipSpace s = c # cs \<Longrightarrow> length cs < length s"
  using skipSpace_length [of s] by simp

lemma value_step:
  assumes IHe: "\<And>s vs r. parseElements n s = Some (vs, r) \<Longrightarrow>
      length r < length s \<and> (\<forall>m. length s - length r \<le> m \<longrightarrow> parseElements m s = Some (vs, r))"
    and IHm: "\<And>s ms r. parseMembers n s = Some (ms, r) \<Longrightarrow>
      length r < length s \<and> (\<forall>m. length s - length r \<le> m \<longrightarrow> parseMembers m s = Some (ms, r))"
    and a: "parseValue (Suc n) s = Some (v, r)"
  shows "length r < length s \<and> (\<forall>m. length s - length r \<le> m \<longrightarrow> parseValue m s = Some (v, r))"
proof -
  from a obtain c cs where sk: "skipSpace s = c # cs"
    by (cases "skipSpace s") auto
  note l0 = skipSpace_Cons_length [OF sk]
  have main: "length r < length s \<and>
      (\<forall>m'. length s - length r \<le> Suc m' \<longrightarrow> parseValue (Suc m') s = Some (v, r))"
  proof (cases "c = CHR ''{''")
    case True
    with a sk obtain d ds where sk2: "skipSpace cs = d # ds"
      by (cases "skipSpace cs") auto
    note l1 = skipSpace_Cons_length [OF sk2]
    show ?thesis
    proof (cases "d = CHR ''}''")
      case cl: True
      with a sk True sk2 have "v = JObject []" "r = ds" by auto
      with sk True sk2 cl l0 l1 show ?thesis by auto
    next
      case False
      with a sk True sk2 obtain ms where pm: "parseMembers n (d # ds) = Some (ms, r)"
        and v: "v = JObject ms"
        by (auto split: option.splits)
      from IHm [OF pm] have lr: "length r < length (d # ds)"
        and f: "\<And>m. length (d # ds) - length r \<le> m \<Longrightarrow> parseMembers m (d # ds) = Some (ms, r)"
        by auto
      have "parseValue (Suc m') s = Some (v, r)" if "length s - length r \<le> Suc m'" for m'
      proof -
        from that l0 l1 lr have "length (d # ds) - length r \<le> m'" by simp
        from f [OF this] sk True sk2 False v show ?thesis by simp
      qed
      with lr l0 l1 show ?thesis by simp
    qed
  next
    case nb: False
    show ?thesis
    proof (cases "c = CHR ''[''")
      case True
      with a sk nb obtain d ds where sk2: "skipSpace cs = d # ds"
        by (cases "skipSpace cs") auto
      note l1 = skipSpace_Cons_length [OF sk2]
      show ?thesis
      proof (cases "d = CHR '']''")
        case cl: True
        with a sk nb True sk2 have "v = JArray []" "r = ds" by auto
        with sk nb True sk2 cl l0 l1 show ?thesis by auto
      next
        case False
        with a sk nb True sk2 obtain vs where pe: "parseElements n (d # ds) = Some (vs, r)"
          and v: "v = JArray vs"
          by (auto split: option.splits)
        from IHe [OF pe] have lr: "length r < length (d # ds)"
          and f: "\<And>m. length (d # ds) - length r \<le> m \<Longrightarrow> parseElements m (d # ds) = Some (vs, r)"
          by auto
        have "parseValue (Suc m') s = Some (v, r)" if "length s - length r \<le> Suc m'" for m'
        proof -
          from that l0 l1 lr have "length (d # ds) - length r \<le> m'" by simp
          from f [OF this] sk nb True sk2 False v show ?thesis by simp
        qed
        with lr l0 l1 show ?thesis by simp
      qed
    next
      case na: False
      have indep: "parseValue (Suc m') s = parseValue (Suc n) s" for m'
        using sk nb na by simp
      have "length r < length s"
      proof (cases "c = CHR 0x22")
        case True
        with a sk nb na obtain t where "parseChars cs = Some (t, r)"
          by (auto split: option.splits)
        from parseChars_shorter [OF this] l0 show ?thesis by simp
      next
        case nq: False
        show ?thesis
        proof (cases "take 4 (c # cs) = ''true'' \<or> take 5 (c # cs) = ''false''
                        \<or> take 4 (c # cs) = ''null''")
          case True
          then have "r = drop 4 (c # cs) \<or> r = drop 5 (c # cs)"
            using a sk nb na nq by (auto split: if_splits)
          then show ?thesis using l0 by auto
        next
          case False
          with a sk nb na nq obtain x where "parseNumber (c # cs) = Some (x, r)"
            by (auto split: option.splits)
          from parseNumber_shorter [OF this] l0 show ?thesis by simp
        qed
      qed
      with indep a show ?thesis by simp
    qed
  qed
  show ?thesis
  proof (intro conjI allI impI)
    from main show "length r < length s" by simp
    fix m assume m: "length s - length r \<le> m"
    with main obtain m' where "m = Suc m'" by (cases m) auto
    with main m show "parseValue m s = Some (v, r)" by simp
  qed
qed

lemma elements_step:
  assumes IHv: "\<And>s v r. parseValue n s = Some (v, r) \<Longrightarrow>
      length r < length s \<and> (\<forall>m. length s - length r \<le> m \<longrightarrow> parseValue m s = Some (v, r))"
    and IHe: "\<And>s vs r. parseElements n s = Some (vs, r) \<Longrightarrow>
      length r < length s \<and> (\<forall>m. length s - length r \<le> m \<longrightarrow> parseElements m s = Some (vs, r))"
    and a: "parseElements (Suc n) s = Some (vs, r)"
  shows "length r < length s \<and> (\<forall>m. length s - length r \<le> m \<longrightarrow> parseElements m s = Some (vs, r))"
proof -
  from a obtain v r1 where pv: "parseValue n s = Some (v, r1)"
    by (auto split: option.splits)
  from IHv [OF pv] have l1: "length r1 < length s"
    and fv: "\<And>m. length s - length r1 \<le> m \<Longrightarrow> parseValue m s = Some (v, r1)"
    by auto
  from a pv obtain c cs where sk: "skipSpace r1 = c # cs"
    by (cases "skipSpace r1") auto
  note l2 = skipSpace_Cons_length [OF sk]
  have main: "length r < length s \<and>
      (\<forall>m'. length s - length r \<le> Suc m' \<longrightarrow> parseElements (Suc m') s = Some (vs, r))"
  proof (cases "c = CHR '',''")
    case True
    with a pv sk obtain vs' where pe: "parseElements n cs = Some (vs', r)" and vs: "vs = v # vs'"
      by (auto split: option.splits)
    from IHe [OF pe] have lr: "length r < length cs"
      and fe: "\<And>m. length cs - length r \<le> m \<Longrightarrow> parseElements m cs = Some (vs', r)"
      by auto
    have "parseElements (Suc m') s = Some (vs, r)" if "length s - length r \<le> Suc m'" for m'
    proof -
      from that l1 l2 lr have "length s - length r1 \<le> m'" "length cs - length r \<le> m'"
        by simp_all
      from fv [OF this(1)] fe [OF this(2)] sk True vs show ?thesis by simp
    qed
    with lr l1 l2 show ?thesis by simp
  next
    case False
    with a pv sk have cl: "c = CHR '']''" and r: "r = cs" and vs: "vs = [v]"
      by (auto split: if_splits)
    have "parseElements (Suc m') s = Some (vs, r)" if "length s - length r \<le> Suc m'" for m'
    proof -
      from that l1 l2 r have "length s - length r1 \<le> m'" by simp
      from fv [OF this] sk cl r vs show ?thesis by simp
    qed
    with r l1 l2 show ?thesis by simp
  qed
  show ?thesis
  proof (intro conjI allI impI)
    from main show "length r < length s" by simp
    fix m assume m: "length s - length r \<le> m"
    with main obtain m' where "m = Suc m'" by (cases m) auto
    with main m show "parseElements m s = Some (vs, r)" by simp
  qed
qed

lemma members_step:
  assumes IHv: "\<And>s v r. parseValue n s = Some (v, r) \<Longrightarrow>
      length r < length s \<and> (\<forall>m. length s - length r \<le> m \<longrightarrow> parseValue m s = Some (v, r))"
    and IHm: "\<And>s ms r. parseMembers n s = Some (ms, r) \<Longrightarrow>
      length r < length s \<and> (\<forall>m. length s - length r \<le> m \<longrightarrow> parseMembers m s = Some (ms, r))"
    and a: "parseMembers (Suc n) s = Some (ms, r)"
  shows "length r < length s \<and> (\<forall>m. length s - length r \<le> m \<longrightarrow> parseMembers m s = Some (ms, r))"
proof -
  from a obtain c cs where sk: "skipSpace s = c # cs"
    by (cases "skipSpace s") auto
  note l0 = skipSpace_Cons_length [OF sk]
  from a sk have q: "c = CHR 0x22" by (auto split: if_splits)
  with a sk obtain k r0 where pc: "parseChars cs = Some (k, r0)"
    by (auto split: option.splits)
  note l1 = parseChars_shorter [OF pc]
  from a sk q pc obtain d ds where sk2: "skipSpace r0 = d # ds"
    by (cases "skipSpace r0") auto
  note l2 = skipSpace_Cons_length [OF sk2]
  from a sk q pc sk2 have col: "d = CHR '':''" by (auto split: if_splits)
  with a sk q pc sk2 obtain v r2 where pv: "parseValue n ds = Some (v, r2)"
    by (auto split: option.splits)
  from IHv [OF pv] have l3: "length r2 < length ds"
    and fv: "\<And>m. length ds - length r2 \<le> m \<Longrightarrow> parseValue m ds = Some (v, r2)"
    by auto
  from a sk q pc sk2 col pv obtain e es where sk3: "skipSpace r2 = e # es"
    by (cases "skipSpace r2") auto
  note l4 = skipSpace_Cons_length [OF sk3]
  have main: "length r < length s \<and>
      (\<forall>m'. length s - length r \<le> Suc m' \<longrightarrow> parseMembers (Suc m') s = Some (ms, r))"
  proof (cases "e = CHR '',''")
    case True
    with a sk q pc sk2 col pv sk3 obtain ms' where pm: "parseMembers n es = Some (ms', r)"
      and ms: "ms = (k, v) # ms'"
      by (auto split: option.splits)
    from IHm [OF pm] have lr: "length r < length es"
      and fm: "\<And>m. length es - length r \<le> m \<Longrightarrow> parseMembers m es = Some (ms', r)"
      by auto
    have "parseMembers (Suc m') s = Some (ms, r)" if "length s - length r \<le> Suc m'" for m'
    proof -
      from that l0 l1 l2 l3 l4 lr have "length ds - length r2 \<le> m'" "length es - length r \<le> m'"
        by simp_all
      from fv [OF this(1)] fm [OF this(2)] sk q pc sk2 col sk3 True ms show ?thesis by simp
    qed
    with lr l0 l1 l2 l3 l4 show ?thesis by simp
  next
    case False
    with a sk q pc sk2 col pv sk3 have cl: "e = CHR ''}''" and r: "r = es" and ms: "ms = [(k, v)]"
      by (auto split: if_splits)
    have "parseMembers (Suc m') s = Some (ms, r)" if "length s - length r \<le> Suc m'" for m'
    proof -
      from that l0 l1 l2 l3 l4 r have "length ds - length r2 \<le> m'" by simp
      from fv [OF this] sk q pc sk2 col sk3 cl r ms show ?thesis by simp
    qed
    with r l0 l1 l2 l3 l4 show ?thesis by simp
  qed
  show ?thesis
  proof (intro conjI allI impI)
    from main show "length r < length s" by simp
    fix m assume m: "length s - length r \<le> m"
    with main obtain m' where "m = Suc m'" by (cases m) auto
    with main m show "parseMembers m s = Some (ms, r)" by simp
  qed
qed

lemma parse_fuel:
  "(\<forall>s v r. parseValue n s = Some (v, r) \<longrightarrow>
      length r < length s \<and> (\<forall>m. length s - length r \<le> m \<longrightarrow> parseValue m s = Some (v, r))) \<and>
   (\<forall>s vs r. parseElements n s = Some (vs, r) \<longrightarrow>
      length r < length s \<and> (\<forall>m. length s - length r \<le> m \<longrightarrow> parseElements m s = Some (vs, r))) \<and>
   (\<forall>s ms r. parseMembers n s = Some (ms, r) \<longrightarrow>
      length r < length s \<and> (\<forall>m. length s - length r \<le> m \<longrightarrow> parseMembers m s = Some (ms, r)))"
proof (induction n)
  case 0
  show ?case by simp
next
  case (Suc n)
  have v: "length r < length s \<and> (\<forall>m. length s - length r \<le> m \<longrightarrow> parseValue m s = Some (v, r))"
    if "parseValue (Suc n) s = Some (v, r)" for s v r
    using value_step [OF _ _ that] Suc by blast
  have e: "length r < length s \<and> (\<forall>m. length s - length r \<le> m \<longrightarrow> parseElements m s = Some (vs, r))"
    if "parseElements (Suc n) s = Some (vs, r)" for s vs r
    using elements_step [OF _ _ that] Suc by blast
  have m: "length r < length s \<and> (\<forall>m. length s - length r \<le> m \<longrightarrow> parseMembers m s = Some (ms, r))"
    if "parseMembers (Suc n) s = Some (ms, r)" for s ms r
    using members_step [OF _ _ that] Suc by blast
  from v e m show ?case by blast
qed

lemma JSON_parse_enough_fuel:
  assumes "parseValue n s = Some (v, r)" "skipSpace r = []"
  shows "JSON_parse s = Some v"
proof -
  from parse_fuel [of n] assms(1)
  have "\<forall>m. length s - length r \<le> m \<longrightarrow> parseValue m s = Some (v, r)" by blast
  moreover have "length s - length r \<le> Suc (length s)" by simp
  ultimately have "parseValue (Suc (length s)) s = Some (v, r)" by blast
  with assms(2) show ?thesis by (simp add: JSON_parse_def)
qed

subsection \<open>The text that is parsed\<close>





end
